theory Spec2Isabelle
  imports Complex_Main "HOL-Library.Word"
begin

unbundle bit_operations_syntax

section \<open>Values and outcomes\<close>

text \<open>
  The embedding follows \<^verbatim>\<open>beluga/algorithm/spatial_hash.hpp\<close>.

  A floating-point value is a finite number, an infinity or a NaN. A finite value is modelled
  by the real number it denotes. The two infinities are one value and so are the two zeros,
  since nothing below tells them apart. The type has more finite values than a format has;
  what is proved for all of them holds for the values of the format. \<^verbatim>\<open>double\<close> is IEEE 754
  binary64. \<^verbatim>\<open>long double\<close> has the format of the platform: binary64 again, the 80-bit
  extended format of the x87, or binary128.
\<close>

datatype double = Finite real | Infinite | NaN

type_synonym long_double = double

datatype format = Binary64 | X87_Extended | Binary128

fun precision :: "format \<Rightarrow> nat" where
  "precision Binary64 = 53"
| "precision X87_Extended = 64"
| "precision Binary128 = 113"

fun emin :: "format \<Rightarrow> int" where
  "emin Binary64 = - 1022"
| "emin X87_Extended = - 16382"
| "emin Binary128 = - 16382"

fun emax :: "format \<Rightarrow> int" where
  "emax Binary64 = 1023"
| "emax X87_Extended = 16383"
| "emax Binary128 = 16383"

text \<open>
  Rounding of a real number to the nearest value of a format, ties to even. \<open>binade a\<close> is the
  exponent \<open>e\<close> with \<open>2^e \<le> a < 2^(e + 1)\<close> of a positive \<open>a\<close>. A value of the binade \<open>e\<close> is
  a multiple of \<open>2^(e - (p - 1))\<close> for the precision \<open>p\<close>, and of \<open>2^(emin - (p - 1))\<close> below
  the smallest normal binade \<open>emin\<close>. The result is infinite when the rounded value does not
  fit the largest binade \<open>emax\<close>.
\<close>

function bit_length :: "int \<Rightarrow> int" where
  "bit_length n = (if n \<le> 0 then 0 else 1 + bit_length (n div 2))"
  by auto
termination
  by (relation "measure nat") auto

declare bit_length.simps [simp del]

definition binade :: "real \<Rightarrow> int" where
  "binade a = (if 1 \<le> a then bit_length \<lfloor>a\<rfloor> - 1 else - bit_length (\<lceil>1 / a\<rceil> - 1))"

definition round_half_even :: "real \<Rightarrow> int" where
  "round_half_even y =
     (let f = \<lfloor>y\<rfloor>; d = y - of_int f
      in if d < 1 / 2 then f else if 1 / 2 < d then f + 1 else if even f then f else f + 1)"

definition round_to :: "format \<Rightarrow> real \<Rightarrow> double" where
  "round_to f x =
     (if x = 0 then Finite 0
      else
        let e = max (binade \<bar>x\<bar>) (emin f);
            ulp = 2 powi (e - (int (precision f) - 1));
            n = round_half_even (\<bar>x\<bar> / ulp)
        in if emax f < e \<or> (e = emax f \<and> n = 2 ^ precision f) then Infinite
           else Finite (sgn x * (of_int n * ulp)))"

text \<open>
  A floating literal such as \<^verbatim>\<open>1.4\<close> is the double \<open>round_double 1.4\<close>.
\<close>

definition round_double :: "real \<Rightarrow> double" where
  "round_double x = round_to Binary64 x"

datatype fault = Ill_Formed | Undefined

type_synonym 'a outcome = "fault + 'a"

definition and_then :: "'a outcome \<Rightarrow> ('a \<Rightarrow> 'b outcome) \<Rightarrow> 'b outcome" where
  "and_then m f = (case m of Inl e \<Rightarrow> Inl e | Inr x \<Rightarrow> f x)"

text \<open>
  Division in a format, \<^verbatim>\<open>a / b\<close>: the quotient rounded to the nearest value of the format,
  and the special cases of IEEE 754. \<open>fdiv\<close> is the division of doubles.
\<close>

fun fdiv_in :: "format \<Rightarrow> double \<Rightarrow> double \<Rightarrow> double" where
  "fdiv_in f NaN b = NaN"
| "fdiv_in f a NaN = NaN"
| "fdiv_in f Infinite Infinite = NaN"
| "fdiv_in f Infinite (Finite b) = Infinite"
| "fdiv_in f (Finite a) Infinite = Finite 0"
| "fdiv_in f (Finite a) (Finite b) =
     (if b = 0 then (if a = 0 then NaN else Infinite) else round_to f (a / b))"

definition fdiv :: "double \<Rightarrow> double \<Rightarrow> double" where
  "fdiv a b = fdiv_in Binary64 a b"

text \<open>
  The conversion of a \<^verbatim>\<open>long double\<close> to \<^verbatim>\<open>double\<close>, which an argument undergoes that is
  passed to a parameter of type \<^verbatim>\<open>double\<close>.
\<close>

fun to_double :: "long_double \<Rightarrow> double" where
  "to_double (Finite x) = round_double x"
| "to_double Infinite = Infinite"
| "to_double NaN = NaN"

text \<open>
  An element of a state is of an arithmetic type. In \<^verbatim>\<open>element / resolution\<close>, with the
  resolution a double, an element of an integer type, of \<^verbatim>\<open>float\<close> or of \<^verbatim>\<open>double\<close> is
  converted to \<^verbatim>\<open>double\<close> first and the division is that of doubles: \<open>Double d\<close> is such
  an element, with \<open>d\<close> the converted value. An element of type \<^verbatim>\<open>long double\<close> is divided
  in \<^verbatim>\<open>long double\<close>, and the quotient is converted to \<^verbatim>\<open>double\<close> when it is passed to
  \<^verbatim>\<open>floor_and_fibo_hash\<close>: \<open>Long_double f x\<close> is such an element on a platform whose
  \<^verbatim>\<open>long double\<close> has the format \<open>f\<close>. \<open>axis_quotient\<close> is the argument that line 93 passes.
\<close>

datatype scalar = Double double | Long_double format long_double

fun axis_quotient :: "scalar \<Rightarrow> double \<Rightarrow> double" where
  "axis_quotient (Double a) r = fdiv a r"
| "axis_quotient (Long_double f a) r = to_double (fdiv_in f a r)"

text \<open>\<^verbatim>\<open>std::floor\<close>: the largest integral double not above the argument.\<close>

fun std_floor :: "double \<Rightarrow> double" where
  "std_floor (Finite x) = Finite (of_int \<lfloor>x\<rfloor>)"
| "std_floor Infinite = Infinite"
| "std_floor NaN = NaN"

text \<open>
  \<^verbatim>\<open>static_cast<signed_type>(d)\<close> for a signed type of \<open>w\<close> bits: the fractional part is
  discarded (truncation toward zero), and the behaviour is undefined when the truncated value
  is not a value of the type.
\<close>

definition trunc_zero :: "real \<Rightarrow> int" where
  "trunc_zero x = (if 0 \<le> x then \<lfloor>x\<rfloor> else \<lceil>x\<rceil>)"

fun static_cast_signed :: "nat \<Rightarrow> double \<Rightarrow> int outcome" where
  "static_cast_signed w (Finite x) =
     (if - (2 ^ (w - 1)) \<le> trunc_zero x \<and> trunc_zero x < 2 ^ (w - 1)
      then Inr (trunc_zero x) else Inl Undefined)"
| "static_cast_signed w Infinite = Inl Undefined"
| "static_cast_signed w NaN = Inl Undefined"

text \<open>
  \<^verbatim>\<open>x << s\<close> and \<open>x >> s\<close> on \<^verbatim>\<open>std::size_t\<close>: undefined when \<open>s\<close> is the
  width of the type or more.
\<close>

definition shl :: "'a::len word \<Rightarrow> 'a word \<Rightarrow> 'a word outcome" where
  "shl x s = (if unat s < LENGTH('a) then Inr (push_bit (unat s) x) else Inl Undefined)"

definition shr :: "'a::len word \<Rightarrow> 'a word \<Rightarrow> 'a word outcome" where
  "shr x s = (if unat s < LENGTH('a) then Inr (drop_bit (unat s) x) else Inl Undefined)"

section \<open>The hash of one axis\<close>

text \<open>
  \<^verbatim>\<open>std::size_t\<close> is \<^typ>\<open>'a word\<close>, and \<^verbatim>\<open>std::numeric_limits<std::size_t>::digits\<close>
  is \<open>LENGTH('a)\<close>. The constant \<^verbatim>\<open>kFib\<close> exists for 64 and for 32 bits; for any other
  width the \<^verbatim>\<open>static_assert\<close> of the last branch fires.
\<close>

definition kFib :: "'a::len word outcome" where
  "kFib = (if LENGTH('a) = 64 then Inr 11400714819323198485
           else if LENGTH('a) = 32 then Inr 2654435769
           else Inl Ill_Formed)"

definition digits :: "'a::len word" where
  "digits = of_nat LENGTH('a)"

text \<open>The two shift amounts of lines 69 and 70, in \<^verbatim>\<open>std::size_t\<close> arithmetic.\<close>

definition left_shift :: "'a::len word \<Rightarrow> 'a word \<Rightarrow> 'a word" where
  "left_shift N I = N * I"

definition right_shift :: "'a::len word \<Rightarrow> 'a word \<Rightarrow> 'a word" where
  "right_shift N I = digits - N * I"

text \<open>Lines 68 to 74: the rotation of the hashed value.\<close>

definition rotate_bits :: "'a::len word \<Rightarrow> 'a word \<Rightarrow> 'a word \<Rightarrow> 'a word outcome" where
  "rotate_bits N I div_hashed_value =
     (if N * I \<noteq> 0 then
        and_then (shl div_hashed_value (left_shift N I)) (\<lambda>left_hash.
        and_then (shr div_hashed_value (right_shift N I)) (\<lambda>right_hash.
          Inr (left_hash OR right_hash)))
      else Inr div_hashed_value)"

definition floor_and_fibo_hash :: "'a::len word \<Rightarrow> 'a word \<Rightarrow> double \<Rightarrow> 'a word outcome" where
  "floor_and_fibo_hash N I val =
     and_then kFib (\<lambda>k.
     and_then (static_cast_signed LENGTH('a) (std_floor val)) (\<lambda>signed_value.
       let unsigned_value = (word_of_int signed_value :: 'a word);
           div_hashed_value = k * unsigned_value
       in rotate_bits N I div_hashed_value))"

section \<open>The hash of a tuple or an array\<close>

text \<open>
  \<^verbatim>\<open>std::get<I>(value)\<close> does not compile when \<open>I\<close> is not an index of the tuple or array;
  \<^verbatim>\<open>resolution[I]\<close> past the end of the \<^verbatim>\<open>std::array\<close> is undefined.
\<close>

definition std_get :: "nat \<Rightarrow> scalar list \<Rightarrow> scalar outcome" where
  "std_get i val = (if i < length val then Inr (val ! i) else Inl Ill_Formed)"

definition subscript :: "double list \<Rightarrow> nat \<Rightarrow> double outcome" where
  "subscript resolution i = (if i < length resolution then Inr (resolution ! i) else Inl Undefined)"

text \<open>
  The fold expression \<^verbatim>\<open>(e ^ ...)\<close> is a right fold without an initial value; over an empty
  pack it is ill-formed.
\<close>

fun xor_fold :: "'a::len word outcome list \<Rightarrow> 'a word outcome" where
  "xor_fold [] = Inl Ill_Formed"
| "xor_fold [e] = e"
| "xor_fold (e # es) = and_then e (\<lambda>a. and_then (xor_fold es) (\<lambda>b. Inr (a XOR b)))"

text \<open>
  \<^verbatim>\<open>hash_impl\<close>: \<open>Ids\<close> is the index pack, \<open>resolution\<close> an array of as many doubles as
  there are indexes (a call with an array of another size has no matching function), and
  \<open>val\<close> the elements of the tuple or array.
\<close>

definition hash_impl :: "scalar list \<Rightarrow> double list \<Rightarrow> nat list \<Rightarrow> 'a::len word outcome" where
  "hash_impl val resolution Ids =
     (if length resolution \<noteq> length Ids then Inl Ill_Formed
      else
        let kBits = (of_nat (LENGTH('a) div length Ids) :: 'a word)
        in xor_fold (map (\<lambda>i.
             and_then (std_get i val) (\<lambda>a.
             and_then (subscript resolution i) (\<lambda>r.
               floor_and_fibo_hash kBits (of_nat i) (axis_quotient a r)))) Ids))"

definition make_index_sequence :: "nat \<Rightarrow> nat list" where
  "make_index_sequence n = [0..<n]"

section \<open>The hashers\<close>

text \<open>
  \<^verbatim>\<open>spatial_hash<std::array<T, N>>\<close>. \<open>N\<close> is the length of the resolution, and an
  argument that is not an array of \<open>N\<close> elements is a type error. The members
  \<^verbatim>\<open>resolution_\<close> and \<^verbatim>\<open>underlying_hasher_\<close> of the three classes are the fields
  \<open>array_resolution\<close>, \<open>tuple_resolution\<close> and \<open>underlying_hasher\<close>.
\<close>

record spatial_hash_array =
  array_resolution :: "double list"

definition spatial_hash_array :: "double list \<Rightarrow> spatial_hash_array" where
  "spatial_hash_array resolution = \<lparr>array_resolution = resolution\<rparr>"

definition array_call :: "spatial_hash_array \<Rightarrow> scalar list \<Rightarrow> 'a::len word outcome" where
  "array_call h array =
     (if length array \<noteq> length (array_resolution h) then Inl Ill_Formed
      else hash_impl array (array_resolution h) (make_index_sequence (length (array_resolution h))))"

text \<open>\<^verbatim>\<open>spatial_hash<Tuple<Types...>>\<close>, with \<open>sizeof...(Types)\<close> the length of the resolution.\<close>

record spatial_hash_tuple =
  tuple_resolution :: "double list"

definition spatial_hash_tuple :: "double list \<Rightarrow> spatial_hash_tuple" where
  "spatial_hash_tuple resolution = \<lparr>tuple_resolution = resolution\<rparr>"

definition tuple_call :: "spatial_hash_tuple \<Rightarrow> scalar list \<Rightarrow> 'a::len word outcome" where
  "tuple_call h tuple =
     (if length tuple \<noteq> length (tuple_resolution h) then Inl Ill_Formed
      else hash_impl tuple (tuple_resolution h)
             (make_index_sequence (length (tuple_resolution h))))"

text \<open>
  \<^verbatim>\<open>Sophus::SE2d\<close> belongs to another library. A pose is what the hasher reads from it:
  the two components of \<^verbatim>\<open>translation()\<close> and the angle that \<^verbatim>\<open>so2().log()\<close> returns.
\<close>

record SE2d =
  translation_x :: double
  translation_y :: double
  so2_log :: double

text \<open>\<^verbatim>\<open>spatial_hash<Sophus::SE2d>\<close> and its three constructors.\<close>

record spatial_hash_SE2d =
  underlying_hasher :: spatial_hash_tuple

definition spatial_hash_SE2d :: "double \<Rightarrow> double \<Rightarrow> double \<Rightarrow> spatial_hash_SE2d" where
  "spatial_hash_SE2d x_clustering_resolution y_clustering_resolution theta_clustering_resolution =
     \<lparr>underlying_hasher = spatial_hash_tuple
        [x_clustering_resolution, y_clustering_resolution, theta_clustering_resolution]\<rparr>"

definition spatial_hash_SE2d_linear_angular :: "double \<Rightarrow> double \<Rightarrow> spatial_hash_SE2d" where
  "spatial_hash_SE2d_linear_angular linear_clustering_resolution angular_clustering_resolution =
     spatial_hash_SE2d linear_clustering_resolution linear_clustering_resolution
       angular_clustering_resolution"

definition spatial_hash_SE2d_default :: spatial_hash_SE2d where
  "spatial_hash_SE2d_default =
     \<lparr>underlying_hasher = spatial_hash_tuple [Finite 1, Finite 1, Finite 1]\<rparr>"

definition SE2d_call :: "spatial_hash_SE2d \<Rightarrow> SE2d \<Rightarrow> 'a::len word outcome" where
  "SE2d_call h state =
     tuple_call (underlying_hasher h)
       [Double (translation_x state), Double (translation_y state), Double (so2_log state)]"

section \<open>Reference definitions\<close>

text \<open>
  The combiner as the specification words it: \<open>bits_per_axis\<close> is the word width divided
  by the number of axes (truncating), every axis \<open>i\<close> of \<open>0..D\<close> gives the word of the
  single-axis primitive on \<open>axes[i] / resolutions[i]\<close>, and the words are folded with
  exclusive or. The first axis without a word decides the outcome.
\<close>

fun xor_all :: "'a::len word list \<Rightarrow> 'a word" where
  "xor_all [] = 0"
| "xor_all (w # ws) = w XOR xor_all ws"

fun all_values :: "'b outcome list \<Rightarrow> 'b list outcome" where
  "all_values [] = Inr []"
| "all_values (e # es) = and_then e (\<lambda>x. and_then (all_values es) (\<lambda>xs. Inr (x # xs)))"

definition combine_spec :: "double list \<Rightarrow> double list \<Rightarrow> 'a::len word outcome" where
  "combine_spec axes resolutions =
     (let D = length axes;
          bits_per_axis = LENGTH('a) div D
      in and_then
           (all_values (map (\<lambda>i. floor_and_fibo_hash (of_nat bits_per_axis) (of_nat i)
                                   (fdiv (axes ! i) (resolutions ! i))) [0..<D]))
           (\<lambda>words. Inr (xor_all words)))"


text \<open>
  The cell of a state: the floor, on every axis, of the quotient that the single-axis
  primitive receives. The word of a cell of integer
  coordinates \<open>zs\<close>, for the multiplier \<open>k\<close>: coordinate \<open>i\<close> is multiplied by \<open>k\<close> and
  rotated left by \<open>i\<close> times the bits per axis, and the words are folded with exclusive or.
\<close>

definition cell :: "scalar list \<Rightarrow> double list \<Rightarrow> double list" where
  "cell v r = map (\<lambda>i. std_floor (axis_quotient (v ! i) (r ! i))) [0..<length r]"

definition cell_word :: "'a::len word \<Rightarrow> int list \<Rightarrow> 'a word" where
  "cell_word k zs =
     xor_all (map (\<lambda>i. word_rotl ((LENGTH('a) div length zs) * i) (k * word_of_int (zs ! i)))
       [0..<length zs])"

text \<open>
  A floor that the conversion to the signed integer type of \<open>w\<close> bits accepts: a finite
  number that is a value of the type. The integer coordinates of the cell of a state are the
  integers of its floors.
\<close>

fun fits_signed :: "nat \<Rightarrow> double \<Rightarrow> bool" where
  "fits_signed w (Finite x) = (- (2 ^ (w - 1)) \<le> \<lfloor>x\<rfloor> \<and> \<lfloor>x\<rfloor> < 2 ^ (w - 1))"
| "fits_signed w Infinite = False"
| "fits_signed w NaN = False"

fun bucket :: "double \<Rightarrow> int" where
  "bucket (Finite x) = \<lfloor>x\<rfloor>"
| "bucket Infinite = 0"
| "bucket NaN = 0"

definition coordinates :: "scalar list \<Rightarrow> double list \<Rightarrow> int list" where
  "coordinates v r = map bucket (cell v r)"

text \<open>A quotient of the origin cell: a finite number of the interval \<open>[0, 1)\<close>.\<close>

fun in_origin_cell :: "double \<Rightarrow> bool" where
  "in_origin_cell (Finite q) = (0 \<le> q \<and> q < 1)"
| "in_origin_cell Infinite = False"
| "in_origin_cell NaN = False"

section \<open>The rounding\<close>

text \<open>
  \<open>binade\<close> is the binary exponent, and a finite result of \<open>round_to\<close> is a value of the
  format (a significand of at most \<open>precision\<close> bits at an exponent of \<open>emin..emax\<close>) within
  half a unit in the last place of the argument.
\<close>

lemma bit_length_bounds:
  "0 < n \<Longrightarrow> 1 \<le> bit_length n \<and> 2 ^ nat (bit_length n - 1) \<le> n \<and> n < 2 ^ nat (bit_length n)"
proof (induction n rule: bit_length.induct)
  case (1 n)
  show ?case
  proof (cases "n div 2 \<le> 0")
    case True
    with "1.prems" have "n = 1" by linarith
    then show ?thesis
      by (simp add: bit_length.simps)
  next
    case False
    then have pos: "0 < n div 2" by simp
    with "1.IH" "1.prems"
    have ih: "1 \<le> bit_length (n div 2)" "2 ^ nat (bit_length (n div 2) - 1) \<le> n div 2"
      "n div 2 < 2 ^ nat (bit_length (n div 2))"
      by simp_all
    have eq: "bit_length n = 1 + bit_length (n div 2)"
      using "1.prems" by (subst bit_length.simps) simp
    define k where "k = nat (bit_length (n div 2) - 1)"
    have b: "nat (bit_length (n div 2)) = Suc k"
      using ih(1) by (simp add: k_def)
    have "nat (bit_length n - 1) = Suc k" "nat (bit_length n) = Suc (Suc k)"
      using ih(1) eq b by simp_all
    moreover have "2 * 2 ^ k \<le> n"
      using ih(2) unfolding k_def by linarith
    moreover have "n < 2 * (2 * 2 ^ k)"
      using ih(3) unfolding b by simp
    ultimately show ?thesis
      using ih(1) eq by simp
  qed
qed

lemma powi_neg:
  "0 \<le> m \<Longrightarrow> (2::real) powi (- m) = 1 / 2 ^ nat m"
  by (simp add: power_int_minus power_int_def field_simps)

lemma binade_bounds:
  assumes "0 < a"
  shows "2 powi binade a \<le> a \<and> a < 2 powi (binade a + 1)"
proof (cases "1 \<le> a")
  case True
  then have pos: "0 < \<lfloor>a\<rfloor>" by linarith
  let ?b = "bit_length \<lfloor>a\<rfloor>"
  from bit_length_bounds [OF pos]
  have b: "1 \<le> ?b" "2 ^ nat (?b - 1) \<le> \<lfloor>a\<rfloor>" "\<lfloor>a\<rfloor> < 2 ^ nat ?b"
    by simp_all
  have "(2::real) ^ nat (?b - 1) \<le> of_int \<lfloor>a\<rfloor>"
    using b(2) by (metis of_int_le_iff of_int_numeral of_int_power)
  then have lo: "(2::real) ^ nat (?b - 1) \<le> a"
    by linarith
  have "\<lfloor>a\<rfloor> + 1 \<le> 2 ^ nat ?b"
    using b(3) by simp
  then have "of_int (\<lfloor>a\<rfloor> + 1) \<le> (2::real) ^ nat ?b"
    by (metis of_int_le_iff of_int_numeral of_int_power)
  then have hi: "a < (2::real) ^ nat ?b"
    by linarith
  show ?thesis
    using True b(1) lo hi by (simp add: binade_def power_int_def)
next
  case False
  with assms have a: "0 < a" "a < 1" by simp_all
  then have "1 < 1 / a" by simp
  then have c: "2 \<le> \<lceil>1 / a\<rceil>" by linarith
  let ?c = "\<lceil>1 / a\<rceil>"
  let ?m = "bit_length (?c - 1)"
  have pos: "0 < ?c - 1" using c by simp
  from bit_length_bounds [OF pos]
  have m: "1 \<le> ?m" "2 ^ nat (?m - 1) \<le> ?c - 1" "?c - 1 < 2 ^ nat ?m"
    by simp_all
  have "?c \<le> 2 ^ nat ?m"
    using m(3) by simp
  then have "of_int ?c \<le> (2::real) ^ nat ?m"
    by (metis of_int_le_iff of_int_numeral of_int_power)
  then have "1 / a \<le> (2::real) ^ nat ?m"
    by linarith
  then have lo: "1 / 2 ^ nat ?m \<le> a"
    using a(1) by (simp add: field_simps)
  have "(2::real) ^ nat (?m - 1) \<le> of_int (?c - 1)"
    using m(2) by (metis of_int_le_iff of_int_numeral of_int_power)
  moreover have "of_int (?c - 1) < 1 / a"
    by linarith
  ultimately have "(2::real) ^ nat (?m - 1) < 1 / a"
    by linarith
  then have hi: "a < 1 / 2 ^ nat (?m - 1)"
    using a(1) by (simp add: field_simps)
  have e: "binade a = - ?m"
    using False by (simp add: binade_def)
  have "(2::real) powi (- ?m) = 1 / 2 ^ nat ?m"
    using m(1) by (intro powi_neg) simp
  moreover have "(2::real) powi (- (?m - 1)) = 1 / 2 ^ nat (?m - 1)"
    using m(1) by (intro powi_neg) simp
  moreover have "- ?m + 1 = - (?m - 1)"
    by simp
  ultimately show ?thesis
    using lo hi by (simp only: e)
qed

lemma round_half_even_error: "\<bar>of_int (round_half_even y) - y\<bar> \<le> 1 / 2"
  unfolding round_half_even_def Let_def by (auto simp: abs_le_iff)

lemma round_to_error:
  assumes "round_to f x = Finite r"
  shows "\<bar>r - x\<bar> \<le> 2 powi (max (binade \<bar>x\<bar>) (emin f) - (int (precision f) - 1)) / 2"
proof (cases "x = 0")
  case True
  with assms show ?thesis
    by (simp add: round_to_def)
next
  case False
  define ulp :: real where "ulp = 2 powi (max (binade \<bar>x\<bar>) (emin f) - (int (precision f) - 1))"
  define n where "n = round_half_even (\<bar>x\<bar> / ulp)"
  have ulp: "0 < ulp"
    by (simp add: ulp_def)
  have r: "r = sgn x * (of_int n * ulp)"
    using assms False unfolding round_to_def Let_def ulp_def [symmetric] n_def [symmetric]
    by (simp split: if_splits)
  have "x = sgn x * \<bar>x\<bar>"
    by (simp add: sgn_mult_abs)
  then have "r - x = sgn x * (of_int n * ulp - \<bar>x\<bar>)"
    unfolding r by (simp add: right_diff_distrib)
  then have "\<bar>r - x\<bar> = \<bar>sgn x * (of_int n * ulp - \<bar>x\<bar>)\<bar>"
    by simp
  also have "\<dots> = \<bar>of_int n * ulp - \<bar>x\<bar>\<bar>"
    using False by (simp add: abs_mult abs_sgn_eq)
  also have "\<dots> = \<bar>of_int n - \<bar>x\<bar> / ulp\<bar> * ulp"
    using ulp by (simp add: field_simps flip: abs_mult_pos)
  also have "\<dots> \<le> 1 / 2 * ulp"
    using ulp round_half_even_error [of "\<bar>x\<bar> / ulp"]
    unfolding n_def by (intro mult_right_mono) simp_all
  finally show ?thesis
    by (simp add: ulp_def)
qed

lemma round_half_even_range:
  assumes "0 \<le> y" "y < of_int m"
  shows "0 \<le> round_half_even y \<and> round_half_even y \<le> m"
proof -
  have "0 \<le> \<lfloor>y\<rfloor>" "\<lfloor>y\<rfloor> < m"
    using assms by (simp_all add: floor_less_iff)
  then show ?thesis
    unfolding round_half_even_def Let_def by auto
qed

lemma round_to_representable:
  assumes "round_to f x = Finite r" and "x \<noteq> 0"
  shows "\<exists>n e. \<bar>r\<bar> = of_int n * 2 powi (e - (int (precision f) - 1)) \<and>
           0 \<le> n \<and> n \<le> 2 ^ precision f \<and>
           emin f \<le> e \<and> e \<le> emax f \<and> (e = emax f \<longrightarrow> n < 2 ^ precision f)"
proof -
  define e where "e = max (binade \<bar>x\<bar>) (emin f)"
  define ulp :: real where "ulp = 2 powi (e - (int (precision f) - 1))"
  define n where "n = round_half_even (\<bar>x\<bar> / ulp)"
  have ulp: "0 < ulp"
    by (simp add: ulp_def)
  have fin: "\<not> (emax f < e \<or> (e = emax f \<and> n = 2 ^ precision f))"
    and r: "r = sgn x * (of_int n * ulp)"
    using assms unfolding round_to_def Let_def e_def [symmetric] ulp_def [symmetric]
      n_def [symmetric]
    by (simp_all split: if_splits)
  have "\<bar>x\<bar> < 2 powi (binade \<bar>x\<bar> + 1)"
    using binade_bounds [of "\<bar>x\<bar>"] assms(2) by simp
  also have "\<dots> \<le> 2 powi (e + 1)"
    by (intro power_int_increasing) (simp_all add: e_def)
  finally have "\<bar>x\<bar> / ulp < 2 powi (e + 1) / ulp"
    using ulp by (simp add: divide_strict_right_mono)
  also have "2 powi (e + 1) / ulp = 2 powi int (precision f)"
    unfolding ulp_def by (simp flip: power_int_diff)
  finally have "\<bar>x\<bar> / ulp < of_int (2 ^ precision f)"
    by simp
  moreover have "0 \<le> \<bar>x\<bar> / ulp"
    using ulp by simp
  ultimately have n: "0 \<le> n" "n \<le> 2 ^ precision f"
    unfolding n_def using round_half_even_range by blast+
  have "\<bar>r\<bar> = of_int n * ulp"
    using n(1) ulp assms(2) by (simp add: r abs_mult abs_sgn_eq)
  moreover have "emin f \<le> e"
    by (simp add: e_def)
  ultimately show ?thesis
    using n fin unfolding ulp_def by (intro exI [of _ n] exI [of _ e]) auto
qed

section \<open>The rotation\<close>

lemma rotl_as_shifts:
  fixes x :: "'a::len word"
  assumes "0 < n" "n < LENGTH('a)"
  shows "push_bit n x OR drop_bit (LENGTH('a) - n) x = word_rotl n x"
proof (rule bit_word_eqI)
  fix k assume k: "k < LENGTH('a)"
  show "bit (push_bit n x OR drop_bit (LENGTH('a) - n) x) k = bit (word_rotl n x) k"
  proof (cases "n \<le> k")
    case True
    then have "(k + (LENGTH('a) - n)) mod LENGTH('a) = k - n"
      using assms k by (simp add: mod_if)
    with True k assms show ?thesis
      by (auto simp: bit_or_iff bit_push_bit_iff bit_drop_bit_eq bit_word_rotl_iff
          dest: bit_imp_le_length)
  next
    case False
    then have "(k + (LENGTH('a) - n)) mod LENGTH('a) = k + (LENGTH('a) - n)"
      using assms k by simp
    with False k assms show ?thesis
      by (auto simp: bit_or_iff bit_push_bit_iff bit_drop_bit_eq bit_word_rotl_iff add.commute)
  qed
qed

lemma word_rotl_zero: "word_rotl 0 x = x"
  by (rule bit_word_eqI) (simp add: bit_word_rotl_iff)

lemma bits_times_index_less:
  assumes "I < D" "0 < w"
  shows "(w div D) * I < (w::nat)"
proof (cases "w div D = 0")
  case True
  with assms show ?thesis by simp
next
  case False
  have "(w div D) * I < (w div D) * D"
    using assms False by simp
  also have "\<dots> \<le> w"
    by simp
  finally show ?thesis .
qed

lemma unat_bits_times_index:
  assumes "I < D"
  shows "unat ((of_nat (LENGTH('a) div D) :: 'a::len word) * of_nat I) = (LENGTH('a) div D) * I"
proof -
  have "(LENGTH('a) div D) * I < LENGTH('a)"
    using assms by (simp add: bits_times_index_less)
  also have "LENGTH('a) < 2 ^ LENGTH('a)"
    by simp
  finally have "(LENGTH('a) div D) * I < 2 ^ LENGTH('a)" .
  then have "unat (of_nat ((LENGTH('a) div D) * I) :: 'a word) = (LENGTH('a) div D) * I"
    by (simp only: unat_of_nat mod_less)
  then show ?thesis by (simp only: of_nat_mult)
qed

lemma unat_digits: "unat (digits :: 'a::len word) = LENGTH('a)"
  by (simp add: digits_def unat_of_nat)

lemma unat_right_shift:
  fixes N I :: "'a::len word"
  assumes "unat (N * I) < LENGTH('a)"
  shows "unat (right_shift N I) = LENGTH('a) - unat (N * I)"
proof -
  have "N * I \<le> digits"
    using assms by (simp add: word_le_nat_alt unat_digits)
  then show ?thesis
    by (simp add: right_shift_def unat_sub unat_digits)
qed

lemma rotate_bits_in_range:
  fixes N I x :: "'a::len word"
  assumes "unat (N * I) < LENGTH('a)"
  shows "rotate_bits N I x = Inr (word_rotl (unat (N * I)) x)"
proof (cases "N * I = 0")
  case True
  then show ?thesis by (simp add: rotate_bits_def word_rotl_zero)
next
  case False
  then have pos: "0 < unat (N * I)"
    by (simp add: unat_gt_0)
  then have "unat (right_shift N I) < LENGTH('a)"
    using assms by (simp add: unat_right_shift)
  with False assms pos show ?thesis
    by (simp add: rotate_bits_def shl_def shr_def and_then_def left_shift_def
        unat_right_shift rotl_as_shifts)
qed

text \<open>
  Claim C9 (rotation shift safety). For a dimensionality \<open>D \<ge> 1\<close> and an axis index
  \<open>I < D\<close>, with \<open>N\<close> the word width divided by \<open>D\<close>: when \<open>N * I\<close> is not zero, the two
  shift amounts \<open>N * I\<close> and \<open>digits - N * I\<close> lie strictly between 0 and the word width;
  when \<open>N * I\<close> is zero the shifting branch is not taken and the hashed value is returned
  as it is. In both cases the rotation is defined and is the left rotation by \<open>N * I\<close>.
\<close>

theorem rotation_shift_safety:
  fixes x :: "'a::len word"
  assumes "1 \<le> D" "I < D"
  shows "(let N = (of_nat (LENGTH('a) div D) :: 'a word); i = of_nat I in
           (N * i \<noteq> 0 \<longrightarrow>
              0 < unat (left_shift N i) \<and> unat (left_shift N i) < LENGTH('a) \<and>
              0 < unat (right_shift N i) \<and> unat (right_shift N i) < LENGTH('a)) \<and>
           (N * i = 0 \<longrightarrow> rotate_bits N i x = Inr x) \<and>
           unat (left_shift N i) = (LENGTH('a) div D) * I \<and>
           rotate_bits N i x = Inr (word_rotl ((LENGTH('a) div D) * I) x))"
proof -
  define N :: "'a word" where "N = of_nat (LENGTH('a) div D)"
  define i :: "'a word" where "i = of_nat I"
  have prod: "unat (N * i) = (LENGTH('a) div D) * I"
    unfolding N_def i_def using assms(2) by (rule unat_bits_times_index)
  have less: "unat (N * i) < LENGTH('a)"
    using assms(2) by (simp add: prod bits_times_index_less)
  have rot: "rotate_bits N i x = Inr (word_rotl (unat (N * i)) x)"
    using less by (rule rotate_bits_in_range)
  have right: "unat (right_shift N i) = LENGTH('a) - unat (N * i)"
    using less by (rule unat_right_shift)
  have amounts: "0 < unat (left_shift N i) \<and> unat (left_shift N i) < LENGTH('a) \<and>
      0 < unat (right_shift N i) \<and> unat (right_shift N i) < LENGTH('a)" if "N * i \<noteq> 0"
  proof -
    from that have "0 < unat (N * i)"
      by (simp add: unat_gt_0)
    with less right show ?thesis
      by (simp add: left_shift_def)
  qed
  have skipped: "rotate_bits N i x = Inr x" if "N * i = 0"
    using that by (simp add: rotate_bits_def)
  have "unat (left_shift N i) = (LENGTH('a) div D) * I"
    using prod by (simp add: left_shift_def)
  moreover have "rotate_bits N i x = Inr (word_rotl ((LENGTH('a) div D) * I) x)"
    using rot prod by simp
  ultimately have "(N * i \<noteq> 0 \<longrightarrow>
              0 < unat (left_shift N i) \<and> unat (left_shift N i) < LENGTH('a) \<and>
              0 < unat (right_shift N i) \<and> unat (right_shift N i) < LENGTH('a)) \<and>
           (N * i = 0 \<longrightarrow> rotate_bits N i x = Inr x) \<and>
           unat (left_shift N i) = (LENGTH('a) div D) * I \<and>
           rotate_bits N i x = Inr (word_rotl ((LENGTH('a) div D) * I) x)"
    using amounts skipped by blast
  then show ?thesis
    unfolding N_def i_def Let_def .
qed

theorem rotation_shift_safety_witness:
  "(1::nat) \<le> 3 \<and> (2::nat) < 3 \<and>
   unat (left_shift (of_nat (LENGTH(64) div 3)) (of_nat 2) :: 64 word) = 42 \<and>
   unat (right_shift (of_nat (LENGTH(64) div 3)) (of_nat 2) :: 64 word) = 22 \<and>
   rotate_bits (of_nat (LENGTH(64) div 3)) (of_nat 2) (1 :: 64 word) = Inr (word_rotl 42 1)"
  using rotation_shift_safety [of 3 2 "1 :: 64 word"]
  by (simp add: Let_def left_shift_def right_shift_def digits_def)


section \<open>The single-axis primitive\<close>

lemma trunc_zero_of_int: "trunc_zero (of_int z) = z"
  by (simp add: trunc_zero_def)

lemma kFib_64: "LENGTH('a::len) = 64 \<Longrightarrow> (kFib :: 'a word outcome) = Inr 11400714819323198485"
  by (simp add: kFib_def)

lemma kFib_32: "LENGTH('a::len) = 32 \<Longrightarrow> (kFib :: 'a word outcome) = Inr 2654435769"
  by (simp add: kFib_def)

lemma floor_and_fibo_hash_value:
  fixes N I k :: "'a::len word"
  assumes "kFib = Inr k"
    and "- (2 ^ (LENGTH('a) - 1)) \<le> \<lfloor>x\<rfloor>" "\<lfloor>x\<rfloor> < 2 ^ (LENGTH('a) - 1)"
    and "unat (N * I) < LENGTH('a)"
  shows "floor_and_fibo_hash N I (Finite x) = Inr (word_rotl (unat (N * I)) (k * word_of_int \<lfloor>x\<rfloor>))"
proof -
  have "static_cast_signed LENGTH('a) (std_floor (Finite x)) = Inr \<lfloor>x\<rfloor>"
    using assms(2,3) by (simp add: trunc_zero_of_int)
  then show ?thesis
    unfolding floor_and_fibo_hash_def assms(1)
    by (simp add: and_then_def rotate_bits_in_range [OF assms(4)])
qed

text \<open>
  Claim C2 (reference definition of the single-axis primitive), where the primitive is
  defined. For a finite input
  whose floor is a value of the signed word type, and for \<open>N\<close> and \<open>I\<close> whose product (in
  \<^verbatim>\<open>std::size_t\<close> arithmetic) is below the word width, the primitive floors the input toward
  minus infinity, takes the two's-complement word of that integer, multiplies it with
  wrap-around by 11400714819323198485 on 64-bit words and by 2654435769 on 32-bit words, and
  rotates the product left by \<open>N * I\<close> positions; when \<open>N * I\<close> is zero the product is
  returned as it is. The quotient of \<open>-0.3\<close> by the resolution 1 has the floor \<open>-1\<close>.
\<close>

theorem axis_hash_reference:
  fixes N I :: "'a::len word"
  assumes "- (2 ^ (LENGTH('a) - 1)) \<le> \<lfloor>x\<rfloor>" and "\<lfloor>x\<rfloor> < 2 ^ (LENGTH('a) - 1)"
    and "unat (N * I) < LENGTH('a)"
  shows "(LENGTH('a) = 64 \<longrightarrow>
            floor_and_fibo_hash N I (Finite x) =
              Inr (word_rotl (unat (N * I)) (11400714819323198485 * word_of_int \<lfloor>x\<rfloor>))) \<and>
         (LENGTH('a) = 32 \<longrightarrow>
            floor_and_fibo_hash N I (Finite x) =
              Inr (word_rotl (unat (N * I)) (2654435769 * word_of_int \<lfloor>x\<rfloor>))) \<and>
         (LENGTH('a) = 64 \<and> N * I = 0 \<longrightarrow>
            floor_and_fibo_hash N I (Finite x) = Inr (11400714819323198485 * word_of_int \<lfloor>x\<rfloor>)) \<and>
         (LENGTH('a) = 32 \<and> N * I = 0 \<longrightarrow>
            floor_and_fibo_hash N I (Finite x) = Inr (2654435769 * word_of_int \<lfloor>x\<rfloor>)) \<and>
         std_floor (fdiv (round_double (- 0.3)) (round_double 1.0)) = Finite (- 1)"
proof -
  have "floor_and_fibo_hash N I (Finite x) = Inr (word_rotl (unat (N * I)) (k * word_of_int \<lfloor>x\<rfloor>))"
    if "kFib = Inr k" for k :: "'a word"
    using that assms by (rule floor_and_fibo_hash_value)
  moreover have "std_floor (fdiv (round_double (- 0.3)) (round_double 1.0)) = Finite (- 1)"
    by code_simp
  ultimately show ?thesis
    by (auto simp: kFib_64 kFib_32 word_rotl_zero)
qed

theorem axis_hash_reference_witness:
  "floor_and_fibo_hash 21 2 (Finite (- 0.3)) =
     (Inr (word_rotl 42 (11400714819323198485 * (- 1))) :: 64 word outcome) \<and>
   floor_and_fibo_hash 16 1 (Finite (- 0.3)) =
     (Inr (word_rotl 16 (2654435769 * (- 1))) :: 32 word outcome) \<and>
   floor_and_fibo_hash 21 0 (Finite 2.5) = (Inr (11400714819323198485 * 2) :: 64 word outcome) \<and>
   floor_and_fibo_hash 16 0 (Finite 2.5) = (Inr (2654435769 * 2) :: 32 word outcome)"
  using axis_hash_reference [of "- 0.3" "21 :: 64 word" 2]
    axis_hash_reference [of "- 0.3" "16 :: 32 word" 1]
    axis_hash_reference [of "2.5" "21 :: 64 word" 0]
    axis_hash_reference [of "2.5" "16 :: 32 word" 0]
  by (simp add: word_rotl_zero)

text \<open>
  Claim C2 does not hold for every bit count, axis index and input. With \<open>N = 64\<close> and
  \<open>I = 1\<close> on 64-bit words both shifts are by the whole width, and the input \<open>10^19\<close> has a
  floor that \<^verbatim>\<open>std::int64_t\<close> cannot hold: in both cases the behaviour is undefined, and the
  primitive does not return the rotated product.
\<close>

theorem axis_hash_reference_counterexample:
  "floor_and_fibo_hash 64 1 (Finite 1) \<noteq>
     (Inr (word_rotl (unat (64 * 1 :: 64 word)) (11400714819323198485 * word_of_int \<lfloor>1 :: real\<rfloor>))
        :: 64 word outcome) \<and>
   floor_and_fibo_hash 32 1 (Finite (10 ^ 19)) \<noteq>
     (Inr (word_rotl (unat (32 * 1 :: 64 word)) (11400714819323198485 * word_of_int \<lfloor>10 ^ 19 :: real\<rfloor>))
        :: 64 word outcome) \<and>
   floor_and_fibo_hash 64 1 (Finite 1) = (Inl Undefined :: 64 word outcome) \<and>
   floor_and_fibo_hash 32 1 (Finite (10 ^ 19)) = (Inl Undefined :: 64 word outcome)"
  by code_simp


section \<open>The combiner\<close>

lemma xor_fold_all_values:
  "es \<noteq> [] \<Longrightarrow> xor_fold es = and_then (all_values es) (\<lambda>ws. Inr (xor_all ws))"
proof (induction es rule: xor_fold.induct)
  case 1
  then show ?case by simp
next
  case (2 e)
  then show ?case by (cases e) (simp_all add: and_then_def)
next
  case (3 e e' es)
  then show ?case
    by (cases e; cases "all_values (e' # es)") (simp_all add: and_then_def)
qed

lemma hash_impl_axes:
  assumes "length val = D" "length resolutions = D"
  shows "map (\<lambda>i. and_then (std_get i val) (\<lambda>a. and_then (subscript resolutions i) (\<lambda>q.
                 floor_and_fibo_hash N (of_nat i) (axis_quotient a q)))) [0..<D] =
         map (\<lambda>i. floor_and_fibo_hash N (of_nat i) (axis_quotient (val ! i) (resolutions ! i))) [0..<D]"
  using assms by (intro map_cong) (simp_all add: std_get_def subscript_def and_then_def)

lemma hash_impl_words:
  assumes "1 \<le> D" "length val = D" "length resolutions = D"
  shows "(hash_impl val resolutions (make_index_sequence D) :: 'a::len word outcome) =
         and_then
           (all_values (map (\<lambda>i. floor_and_fibo_hash (of_nat (LENGTH('a) div D)) (of_nat i)
                                   (axis_quotient (val ! i) (resolutions ! i))) [0..<D]))
           (\<lambda>words. Inr (xor_all words))"
proof -
  have "[0..<D] \<noteq> []"
    using assms(1) by simp
  then show ?thesis
    using assms(2,3)
    by (simp add: hash_impl_def make_index_sequence_def Let_def hash_impl_axes xor_fold_all_values)
qed

lemma quotient_of_doubles:
  assumes "length axes = D"
  shows "map (\<lambda>i. floor_and_fibo_hash N (of_nat i) (axis_quotient (map Double axes ! i) (resolutions ! i)))
           [0..<D] =
         map (\<lambda>i. floor_and_fibo_hash N (of_nat i) (fdiv (axes ! i) (resolutions ! i))) [0..<D]"
  using assms by (intro map_cong) simp_all

text \<open>
  Claim C3 (reference definition of the combiner). For a dimensionality \<open>D \<ge> 1\<close>,
  \<^verbatim>\<open>hash_impl\<close> on \<open>D\<close> axes and \<open>D\<close> resolutions, and the array hasher that calls it, are
  the combiner of the specification: \<open>bits_per_axis\<close> is the word width divided by \<open>D\<close> with
  truncating division, axis \<open>i\<close> gives the single-axis primitive of the quotient
  \<open>axes[i] / resolutions[i]\<close> with that \<open>bits_per_axis\<close> and the index \<open>i\<close>, and the result
  is the exclusive or of the \<open>D\<close> words. The axes are doubles, or values that the division
  converts to double; for a state \<open>val\<close> with elements of any arithmetic type the same holds
  with the quotient as line 93 passes it.
\<close>

theorem combiner_reference:
  assumes "1 \<le> D" "length axes = D" "length resolutions = D"
  shows "(hash_impl (map Double axes) resolutions (make_index_sequence D) :: 'a::len word outcome) =
           combine_spec axes resolutions \<and>
         (array_call (spatial_hash_array resolutions) (map Double axes) :: 'a word outcome) =
           combine_spec axes resolutions \<and>
         (length val = D \<longrightarrow>
            (hash_impl val resolutions (make_index_sequence D) :: 'a word outcome) =
              and_then
                (all_values (map (\<lambda>i. floor_and_fibo_hash (of_nat (LENGTH('a) div D)) (of_nat i)
                                        (axis_quotient (val ! i) (resolutions ! i))) [0..<D]))
                (\<lambda>words. Inr (xor_all words)))"
proof -
  have "(hash_impl (map Double axes) resolutions (make_index_sequence D) :: 'a word outcome) =
      combine_spec axes resolutions"
    using assms(2)
    by (simp only: hash_impl_words [OF assms(1) _ assms(3)] length_map combine_spec_def Let_def
        quotient_of_doubles [OF assms(2)])
  moreover have "(hash_impl val resolutions (make_index_sequence D) :: 'a word outcome) =
      and_then
        (all_values (map (\<lambda>i. floor_and_fibo_hash (of_nat (LENGTH('a) div D)) (of_nat i)
                                (axis_quotient (val ! i) (resolutions ! i))) [0..<D]))
        (\<lambda>words. Inr (xor_all words))" if "length val = D"
    using assms(1) that assms(3) by (rule hash_impl_words)
  ultimately show ?thesis
    using assms(2,3) by (simp add: array_call_def spatial_hash_array_def)
qed

theorem combiner_reference_witness:
  "(hash_impl [Double (Finite 7), Double (Finite (- 1))] [Finite 2, Finite 3] (make_index_sequence 2)
      :: 64 word outcome) = combine_spec [Finite 7, Finite (- 1)] [Finite 2, Finite 3] \<and>
   (array_call (spatial_hash_array [Finite 2, Finite 3]) [Double (Finite 7), Double (Finite (- 1))]
      :: 64 word outcome) = combine_spec [Finite 7, Finite (- 1)] [Finite 2, Finite 3] \<and>
   (hash_impl [Long_double X87_Extended (Finite 7), Double (Finite (- 1))] [Finite 2, Finite 3]
      (make_index_sequence 2) :: 64 word outcome) =
     and_then
       (all_values (map (\<lambda>i. floor_and_fibo_hash (of_nat (LENGTH(64) div 2)) (of_nat i)
          (axis_quotient ([Long_double X87_Extended (Finite 7), Double (Finite (- 1))] ! i)
             ([Finite 2, Finite 3] ! i))) [0..<2]))
       (\<lambda>words. Inr (xor_all words))"
  using combiner_reference [of 2 "[Finite 7, Finite (- 1)]" "[Finite 2, Finite 3]"
      "[Long_double X87_Extended (Finite 7), Double (Finite (- 1))]", where 'a = 64]
  by simp

section \<open>The hash as a function of the cell\<close>

lemma floor_and_fibo_hash_bucket:
  fixes N I k :: "'a::len word"
  assumes "kFib = Inr k" and "std_floor q = Finite (of_int z)"
    and "- (2 ^ (LENGTH('a) - 1)) \<le> z" "z < 2 ^ (LENGTH('a) - 1)"
    and "unat (N * I) < LENGTH('a)"
  shows "floor_and_fibo_hash N I q = Inr (word_rotl (unat (N * I)) (k * word_of_int z))"
proof -
  have "static_cast_signed LENGTH('a) (std_floor q) = Inr z"
    using assms(3,4) by (simp add: assms(2) trunc_zero_of_int)
  then show ?thesis
    unfolding floor_and_fibo_hash_def assms(1)
    by (simp add: and_then_def rotate_bits_in_range [OF assms(5)])
qed

lemma all_values_map_Inr: "all_values (map (\<lambda>i. Inr (g i)) xs) = Inr (map g xs)"
  by (induction xs) (simp_all add: and_then_def)

lemma hash_impl_cell:
  fixes v :: "scalar list" and r :: "double list" and zs :: "int list" and k :: "'a::len word"
  assumes "kFib = Inr k" and "length v = length r"
    and "cell v r = map (\<lambda>z. Finite (of_int z)) zs" and "zs \<noteq> []"
    and "\<forall>z\<in>set zs. - (2 ^ (LENGTH('a) - 1)) \<le> z \<and> z < 2 ^ (LENGTH('a) - 1)"
  shows "hash_impl v r (make_index_sequence (length r)) = Inr (cell_word k zs)"
proof -
  let ?N = "of_nat (LENGTH('a) div length r) :: 'a word"
  let ?g = "\<lambda>i. word_rotl ((LENGTH('a) div length r) * i) (k * word_of_int (zs ! i))"
  have len: "length zs = length r"
    using arg_cong [OF assms(3), of length] by (simp add: cell_def)
  have floors: "std_floor (axis_quotient (v ! i) (r ! i)) = Finite (of_int (zs ! i))"
    if "i < length r" for i
    using arg_cong [OF assms(3), of "\<lambda>xs. xs ! i"] that len by (simp add: cell_def)
  have axis: "floor_and_fibo_hash ?N (of_nat i) (axis_quotient (v ! i) (r ! i)) = Inr (?g i)"
    if "i < length r" for i
  proof -
    have amount: "unat (?N * of_nat i) = (LENGTH('a) div length r) * i"
      using that by (rule unat_bits_times_index)
    then have "unat (?N * of_nat i) < LENGTH('a)"
      using that by (simp add: bits_times_index_less)
    moreover have "zs ! i \<in> set zs"
      using that len by simp
    ultimately have "floor_and_fibo_hash ?N (of_nat i) (axis_quotient (v ! i) (r ! i)) =
        Inr (word_rotl (unat (?N * of_nat i)) (k * word_of_int (zs ! i)))"
      using assms(1,5) floors [OF that] by (intro floor_and_fibo_hash_bucket) simp_all
    then show ?thesis
      by (simp only: amount)
  qed
  have words: "map (\<lambda>i. floor_and_fibo_hash ?N (of_nat i) (axis_quotient (v ! i) (r ! i))) [0..<length r] =
      map (\<lambda>i. Inr (?g i)) [0..<length r]"
    using axis by (intro map_cong) simp_all
  have "1 \<le> length r"
    using assms(4) len by (cases zs) simp_all
  then have "hash_impl v r (make_index_sequence (length r)) =
      and_then (all_values (map (\<lambda>i. floor_and_fibo_hash ?N (of_nat i) (axis_quotient (v ! i) (r ! i)))
        [0..<length r])) (\<lambda>ws. Inr (xor_all ws))"
    using assms(2) refl by (rule hash_impl_words)
  also have "\<dots> = and_then (all_values (map (\<lambda>i. Inr (?g i)) [0..<length r]))
      (\<lambda>ws. Inr (xor_all ws))"
    by (simp only: words)
  also have "\<dots> = Inr (xor_all (map ?g [0..<length r]))"
    by (simp only: all_values_map_Inr and_then_def sum.case)
  also have "\<dots> = Inr (cell_word k zs)"
    by (simp only: cell_word_def len)
  finally show ?thesis .
qed

lemma array_call_cell:
  fixes k :: "'a::len word"
  assumes "kFib = Inr k" and "length v = length r"
    and "cell v r = map (\<lambda>z. Finite (of_int z)) zs" and "zs \<noteq> []"
    and "\<forall>z\<in>set zs. - (2 ^ (LENGTH('a) - 1)) \<le> z \<and> z < 2 ^ (LENGTH('a) - 1)"
  shows "array_call (spatial_hash_array r) v = Inr (cell_word k zs)"
  using hash_impl_cell [OF assms] assms(2) by (simp add: array_call_def spatial_hash_array_def)

lemma SE2d_call_cell:
  fixes k :: "'a::len word"
  assumes "kFib = Inr k"
    and "cell [Double (translation_x pose), Double (translation_y pose), Double (so2_log pose)]
           [rx, ry, rt] = map (\<lambda>z. Finite (of_int z)) zs"
    and "\<forall>z\<in>set zs. - (2 ^ (LENGTH('a) - 1)) \<le> z \<and> z < 2 ^ (LENGTH('a) - 1)"
  shows "SE2d_call (spatial_hash_SE2d rx ry rt) pose = Inr (cell_word k zs)"
proof -
  have "zs \<noteq> []"
    using arg_cong [OF assms(2), of length] by (auto simp: cell_def)
  from hash_impl_cell [OF assms(1) _ assms(2) this assms(3)] show ?thesis
    by (simp add: SE2d_call_def spatial_hash_SE2d_def tuple_call_def spatial_hash_tuple_def)
qed

lemma fits_signed_floor:
  assumes "fits_signed w (std_floor q)"
  shows "Finite (of_int (bucket (std_floor q))) = std_floor q"
    and "- (2 ^ (w - 1)) \<le> bucket (std_floor q)" and "bucket (std_floor q) < 2 ^ (w - 1)"
  using assms by (cases q; simp)+

lemma hash_impl_defined:
  fixes v :: "scalar list" and r :: "double list" and k :: "'a::len word"
  assumes "kFib = Inr k" and "1 \<le> length r" and "length v = length r"
    and "\<forall>i<length r. fits_signed LENGTH('a) (std_floor (axis_quotient (v ! i) (r ! i)))"
  shows "hash_impl v r (make_index_sequence (length r)) = Inr (cell_word k (coordinates v r))"
proof -
  have fits: "fits_signed LENGTH('a) (std_floor (axis_quotient (v ! i) (r ! i)))" if "i < length r" for i
    using assms(4) that by blast
  have "std_floor (axis_quotient (v ! i) (r ! i)) =
      Finite (of_int (bucket (std_floor (axis_quotient (v ! i) (r ! i)))))" if "i < length r" for i
    using fits [OF that] by (rule fits_signed_floor(1) [symmetric])
  then have "map (\<lambda>i. std_floor (axis_quotient (v ! i) (r ! i))) [0..<length r] =
      map (\<lambda>i. Finite (of_int (bucket (std_floor (axis_quotient (v ! i) (r ! i)))))) [0..<length r]"
    by (intro map_cong) simp_all
  then have cells: "cell v r = map (\<lambda>z. Finite (of_int z)) (coordinates v r)"
    by (simp add: coordinates_def cell_def comp_def)
  have nonempty: "coordinates v r \<noteq> []"
    using assms(2) by (cases r) (simp_all add: coordinates_def cell_def)
  have "\<forall>z\<in>set (coordinates v r). - (2 ^ (LENGTH('a) - 1)) \<le> z \<and> z < 2 ^ (LENGTH('a) - 1)"
    using fits_signed_floor(2,3) [OF fits] by (auto simp: coordinates_def cell_def)
  with assms(1,3) cells nonempty show ?thesis
    by (rule hash_impl_cell)
qed

lemma call_defined:
  fixes v :: "scalar list" and r :: "double list" and k :: "'a::len word"
  assumes "kFib = Inr k" and "1 \<le> length r" and "length v = length r"
    and "\<forall>i<length r. fits_signed LENGTH('a) (std_floor (axis_quotient (v ! i) (r ! i)))"
  shows "array_call \<lparr>array_resolution = r\<rparr> v = Inr (cell_word k (coordinates v r))"
    and "tuple_call \<lparr>tuple_resolution = r\<rparr> v = Inr (cell_word k (coordinates v r))"
  using hash_impl_defined [OF assms] assms(3) by (simp_all add: array_call_def tuple_call_def)

lemma SE2d_call_tuple:
  assumes "tuple_resolution (underlying_hasher p) = r"
    and "v = [Double (translation_x s), Double (translation_y s), Double (so2_log s)]"
  shows "SE2d_call p s = (tuple_call \<lparr>tuple_resolution = r\<rparr> v :: 'a::len word outcome)"
  using assms by (simp add: SE2d_call_def tuple_call_def)

lemma coordinates_cong:
  assumes "\<forall>i<length r. std_floor (axis_quotient (v1 ! i) (r ! i)) = std_floor (axis_quotient (v2 ! i) (r ! i))"
  shows "coordinates v1 r = coordinates v2 r"
  using assms by (simp add: coordinates_def cell_def)

section \<open>Bucket equivalence\<close>

text \<open>
  Claim C1 (bucket equivalence), where a hash word is returned. Let \<open>r\<close> be a resolution of a
  dimensionality \<open>D \<ge> 1\<close> and \<open>v1\<close>, \<open>v2\<close> two states of \<open>D\<close> elements such that, on every
  axis, the quotients that the single-axis primitive receives (the quotient by the resolution,
  converted to double) have the same floor. If these floors are finite and values of the
  signed integer type of the word's width, the array hasher and the tuple hasher constructed
  from \<open>r\<close> return the same hash word for \<open>v1\<close> and \<open>v2\<close>, on 64-bit and on 32-bit words:
  the word of the common cell.
\<close>

theorem bucket_equivalence:
  fixes v1 v2 :: "scalar list" and r :: "double list"
  assumes "1 \<le> length r" and "length v1 = length r" and "length v2 = length r"
    and "\<forall>i<length r.
           std_floor (axis_quotient (v1 ! i) (r ! i)) = std_floor (axis_quotient (v2 ! i) (r ! i))"
  shows "((\<forall>i<length r. fits_signed 64 (std_floor (axis_quotient (v1 ! i) (r ! i)))) \<longrightarrow>
            array_call (spatial_hash_array r) v1 =
              Inr (cell_word (11400714819323198485 :: 64 word) (coordinates v1 r)) \<and>
            array_call (spatial_hash_array r) v2 =
              Inr (cell_word (11400714819323198485 :: 64 word) (coordinates v1 r)) \<and>
            tuple_call (spatial_hash_tuple r) v1 =
              Inr (cell_word (11400714819323198485 :: 64 word) (coordinates v1 r)) \<and>
            tuple_call (spatial_hash_tuple r) v2 =
              Inr (cell_word (11400714819323198485 :: 64 word) (coordinates v1 r))) \<and>
         ((\<forall>i<length r. fits_signed 32 (std_floor (axis_quotient (v1 ! i) (r ! i)))) \<longrightarrow>
            array_call (spatial_hash_array r) v1 =
              Inr (cell_word (2654435769 :: 32 word) (coordinates v1 r)) \<and>
            array_call (spatial_hash_array r) v2 =
              Inr (cell_word (2654435769 :: 32 word) (coordinates v1 r)) \<and>
            tuple_call (spatial_hash_tuple r) v1 =
              Inr (cell_word (2654435769 :: 32 word) (coordinates v1 r)) \<and>
            tuple_call (spatial_hash_tuple r) v2 =
              Inr (cell_word (2654435769 :: 32 word) (coordinates v1 r)))"
proof -
  have same: "coordinates v2 r = coordinates v1 r"
    using assms(4) by (rule coordinates_cong [symmetric])
  have wide: "array_call (spatial_hash_array r) v1 =
        Inr (cell_word (11400714819323198485 :: 64 word) (coordinates v1 r)) \<and>
      array_call (spatial_hash_array r) v2 =
        Inr (cell_word (11400714819323198485 :: 64 word) (coordinates v1 r)) \<and>
      tuple_call (spatial_hash_tuple r) v1 =
        Inr (cell_word (11400714819323198485 :: 64 word) (coordinates v1 r)) \<and>
      tuple_call (spatial_hash_tuple r) v2 =
        Inr (cell_word (11400714819323198485 :: 64 word) (coordinates v1 r))"
    if fits: "\<forall>i<length r. fits_signed 64 (std_floor (axis_quotient (v1 ! i) (r ! i)))"
  proof -
    have fits1: "\<forall>i<length r. fits_signed LENGTH(64) (std_floor (axis_quotient (v1 ! i) (r ! i)))"
      using fits by simp
    have fits2: "\<forall>i<length r. fits_signed LENGTH(64) (std_floor (axis_quotient (v2 ! i) (r ! i)))"
      using fits assms(4) by simp
    show ?thesis
      unfolding spatial_hash_array_def spatial_hash_tuple_def
      using call_defined [where 'a = 64, OF kFib_64 assms(1,2) fits1]
        call_defined [where 'a = 64, OF kFib_64 assms(1,3) fits2]
      by (simp add: same)
  qed
  have narrow: "array_call (spatial_hash_array r) v1 =
        Inr (cell_word (2654435769 :: 32 word) (coordinates v1 r)) \<and>
      array_call (spatial_hash_array r) v2 =
        Inr (cell_word (2654435769 :: 32 word) (coordinates v1 r)) \<and>
      tuple_call (spatial_hash_tuple r) v1 =
        Inr (cell_word (2654435769 :: 32 word) (coordinates v1 r)) \<and>
      tuple_call (spatial_hash_tuple r) v2 =
        Inr (cell_word (2654435769 :: 32 word) (coordinates v1 r))"
    if fits: "\<forall>i<length r. fits_signed 32 (std_floor (axis_quotient (v1 ! i) (r ! i)))"
  proof -
    have fits1: "\<forall>i<length r. fits_signed LENGTH(32) (std_floor (axis_quotient (v1 ! i) (r ! i)))"
      using fits by simp
    have fits2: "\<forall>i<length r. fits_signed LENGTH(32) (std_floor (axis_quotient (v2 ! i) (r ! i)))"
      using fits assms(4) by simp
    show ?thesis
      unfolding spatial_hash_array_def spatial_hash_tuple_def
      using call_defined [where 'a = 32, OF kFib_32 assms(1,2) fits1]
        call_defined [where 'a = 32, OF kFib_32 assms(1,3) fits2]
      by (simp add: same)
  qed
  from wide narrow show ?thesis
    by blast
qed

theorem bucket_equivalence_witness:
  "std_floor (axis_quotient (Double (Finite 0.75)) (Finite 0.5)) =
     std_floor (axis_quotient (Double (Finite 0.875)) (Finite 0.5)) \<and>
   std_floor (axis_quotient (Long_double X87_Extended (Finite (- 3))) (Finite 2)) =
     std_floor (axis_quotient (Double (Finite (- 2.5))) (Finite 2)) \<and>
   array_call (spatial_hash_array [Finite 0.5, Finite 2])
     [Double (Finite 0.75), Long_double X87_Extended (Finite (- 3))] =
     Inr (cell_word (11400714819323198485 :: 64 word) [1, - 2]) \<and>
   array_call (spatial_hash_array [Finite 0.5, Finite 2])
     [Double (Finite 0.875), Double (Finite (- 2.5))] =
     Inr (cell_word (11400714819323198485 :: 64 word) [1, - 2]) \<and>
   tuple_call (spatial_hash_tuple [Finite 0.5, Finite 2])
     [Double (Finite 0.875), Double (Finite (- 2.5))] =
     Inr (cell_word (2654435769 :: 32 word) [1, - 2])"
proof -
  have axis0: "std_floor (axis_quotient (Double (Finite 0.75)) (Finite 0.5)) = Finite 1"
    "std_floor (axis_quotient (Double (Finite 0.875)) (Finite 0.5)) = Finite 1"
    by code_simp+
  have axis1: "std_floor (axis_quotient (Long_double X87_Extended (Finite (- 3))) (Finite 2)) =
      Finite (- 2)"
    "std_floor (axis_quotient (Double (Finite (- 2.5))) (Finite 2)) = Finite (- 2)"
    by code_simp+
  have cells: "coordinates [Double (Finite 0.75), Long_double X87_Extended (Finite (- 3))]
      [Finite 0.5, Finite 2] = [1, - 2]"
    using axis0 axis1 by (simp add: coordinates_def cell_def)
  have floors: "\<forall>i<length [Finite 0.5, Finite 2].
      std_floor (axis_quotient ([Double (Finite 0.75), Long_double X87_Extended (Finite (- 3))] ! i)
        ([Finite 0.5, Finite 2] ! i)) =
      std_floor (axis_quotient ([Double (Finite 0.875), Double (Finite (- 2.5))] ! i)
        ([Finite 0.5, Finite 2] ! i))"
    using axis0 axis1 by (simp add: less_Suc_eq)
  have fits: "\<forall>i<length [Finite 0.5, Finite 2].
      fits_signed w (std_floor
        (axis_quotient ([Double (Finite 0.75), Long_double X87_Extended (Finite (- 3))] ! i)
          ([Finite 0.5, Finite 2] ! i)))" if "w = 64 \<or> w = 32" for w
    using axis0 axis1 that by (auto simp: less_Suc_eq)
  from bucket_equivalence [OF _ _ _ floors] fits [of 64] fits [of 32] cells axis0 axis1
  show ?thesis
    by simp
qed

text \<open>
  Claim C1 does not hold for every pair of states with equal floors. At the resolution 1, the
  state \<open>[10^19]\<close> has the same floor as itself, and the conversion of that floor to
  \<^verbatim>\<open>std::int64_t\<close> is undefined, so no hash word is returned. And with elements of type
  \<^verbatim>\<open>long double\<close> of a 64-bit significand, \<open>3 - 2^-62\<close> and \<open>2.5\<close> have quotients by 1 of
  the same floor 2 in \<^verbatim>\<open>long double\<close>, but the first quotient is converted to the double 3
  when it is passed to the single-axis primitive: the two states get the words of the cells 3
  and 2.
\<close>

theorem bucket_equivalence_counterexample:
  "std_floor (fdiv (Finite (10 ^ 19)) (Finite 1)) = Finite (10 ^ 19) \<and>
   array_call (spatial_hash_array [Finite 1]) [Double (Finite (10 ^ 19))] =
     (Inl Undefined :: 64 word outcome) \<and>
   std_floor (fdiv_in X87_Extended (Finite (3 - 1 / 2 ^ 62)) (Finite 1)) = Finite 2 \<and>
   std_floor (fdiv_in X87_Extended (Finite 2.5) (Finite 1)) = Finite 2 \<and>
   array_call (spatial_hash_array [Finite 1]) [Long_double X87_Extended (Finite (3 - 1 / 2 ^ 62))] =
     Inr (15755400384260043839 :: 64 word) \<and>
   array_call (spatial_hash_array [Finite 1]) [Long_double X87_Extended (Finite 2.5)] =
     Inr (4354685564936845354 :: 64 word)"
  by code_simp

section \<open>The origin cell\<close>

lemma floor_and_fibo_hash_origin:
  fixes N I :: "'a::len word"
  assumes "LENGTH('a) = 64 \<or> LENGTH('a) = 32" "in_origin_cell q" "unat (N * I) < LENGTH('a)"
  shows "floor_and_fibo_hash N I q = Inr 0"
proof -
  obtain x where q: "q = Finite x" and x: "0 \<le> x" "x < 1"
    using assms(2) by (cases q) simp_all
  then have fl: "\<lfloor>x\<rfloor> = 0"
    by linarith
  obtain k :: "'a word" where k: "kFib = Inr k"
    using assms(1) by (auto simp: kFib_def)
  have "floor_and_fibo_hash N I (Finite x) = Inr (word_rotl (unat (N * I)) (k * word_of_int \<lfloor>x\<rfloor>))"
    using k assms(3) by (intro floor_and_fibo_hash_value) (simp_all add: fl)
  then show ?thesis
    by (simp add: q fl)
qed

lemma origin_axis:
  assumes "LENGTH('a::len) = 64 \<or> LENGTH('a) = 32" and "i < length r"
    and "in_origin_cell (axis_quotient (v ! i) (r ! i))"
  shows "floor_and_fibo_hash (of_nat (LENGTH('a) div length r)) (of_nat i)
           (axis_quotient (v ! i) (r ! i)) = Inr (0 :: 'a word)"
proof -
  have "unat ((of_nat (LENGTH('a) div length r) :: 'a word) * of_nat i) < LENGTH('a)"
    using assms(2) by (simp add: unat_bits_times_index bits_times_index_less)
  with assms(1,3) show ?thesis
    by (intro floor_and_fibo_hash_origin) simp_all
qed

lemma xor_fold_zero:
  "es \<noteq> [] \<Longrightarrow> \<forall>e\<in>set es. e = Inr 0 \<Longrightarrow> xor_fold es = Inr 0"
  by (induction es rule: xor_fold.induct) (simp_all add: and_then_def)

lemma hash_impl_origin:
  fixes v :: "scalar list" and r :: "double list"
  assumes "LENGTH('a::len) = 64 \<or> LENGTH('a) = 32"
    and "1 \<le> length r" "length v = length r"
    and "\<forall>i<length r. in_origin_cell (axis_quotient (v ! i) (r ! i))"
  shows "(hash_impl v r (make_index_sequence (length r)) :: 'a word outcome) = Inr 0"
proof -
  let ?N = "of_nat (LENGTH('a) div length r) :: 'a word"
  have "floor_and_fibo_hash ?N (of_nat i) (axis_quotient (v ! i) (r ! i)) = Inr 0"
    if "i < length r" for i
    using assms(1) that assms(4) by (intro origin_axis) simp_all
  then have "\<forall>e\<in>set (map (\<lambda>i. floor_and_fibo_hash ?N (of_nat i) (axis_quotient (v ! i) (r ! i)))
      [0..<length r]). e = Inr 0"
    by auto
  moreover have "map (\<lambda>i. floor_and_fibo_hash ?N (of_nat i) (axis_quotient (v ! i) (r ! i)))
      [0..<length r] \<noteq> []"
    using assms(2) by (cases r) simp_all
  ultimately have "xor_fold (map (\<lambda>i. floor_and_fibo_hash ?N (of_nat i) (axis_quotient (v ! i) (r ! i)))
      [0..<length r]) = Inr 0"
    by (rule xor_fold_zero [rotated])
  then show ?thesis
    using assms(3)
    by (simp add: hash_impl_def make_index_sequence_def Let_def hash_impl_axes)
qed

text \<open>
  Claim C10 (the origin cell hashes to zero), for the quotient that the single-axis primitive
  receives. For a dimensionality \<open>D \<ge> 1\<close>, a resolution \<open>r\<close> and a state \<open>v\<close> whose
  quotient \<open>v[i] / r[i]\<close>, converted to double as line 93 passes it, lies in \<open>[0, 1)\<close> on
  every axis, the array hasher and the tuple hasher return the word 0, on 64-bit and on 32-bit
  words, and every axis contributes the word 0.
\<close>

theorem origin_cell_hashes_to_zero:
  fixes v :: "scalar list" and r :: "double list"
  assumes "1 \<le> length r" "length v = length r"
    and "\<forall>i<length r. in_origin_cell (axis_quotient (v ! i) (r ! i))"
  shows "array_call (spatial_hash_array r) v = Inr (0 :: 64 word) \<and>
         array_call (spatial_hash_array r) v = Inr (0 :: 32 word) \<and>
         tuple_call (spatial_hash_tuple r) v = Inr (0 :: 64 word) \<and>
         tuple_call (spatial_hash_tuple r) v = Inr (0 :: 32 word) \<and>
         (\<forall>i<length r.
            floor_and_fibo_hash (of_nat (LENGTH(64) div length r)) (of_nat i)
              (axis_quotient (v ! i) (r ! i)) = Inr (0 :: 64 word) \<and>
            floor_and_fibo_hash (of_nat (LENGTH(32) div length r)) (of_nat i)
              (axis_quotient (v ! i) (r ! i)) = Inr (0 :: 32 word))"
proof -
  have "\<forall>i<length r.
      floor_and_fibo_hash (of_nat (LENGTH(64) div length r)) (of_nat i)
        (axis_quotient (v ! i) (r ! i)) = Inr (0 :: 64 word) \<and>
      floor_and_fibo_hash (of_nat (LENGTH(32) div length r)) (of_nat i)
        (axis_quotient (v ! i) (r ! i)) = Inr (0 :: 32 word)"
  proof (intro allI impI conjI)
    fix i
    assume i: "i < length r"
    with assms(3) have q: "in_origin_cell (axis_quotient (v ! i) (r ! i))"
      by blast
    show "floor_and_fibo_hash (of_nat (LENGTH(64) div length r)) (of_nat i)
        (axis_quotient (v ! i) (r ! i)) = Inr (0 :: 64 word)"
      by (rule origin_axis [OF _ i q]) simp
    show "floor_and_fibo_hash (of_nat (LENGTH(32) div length r)) (of_nat i)
        (axis_quotient (v ! i) (r ! i)) = Inr (0 :: 32 word)"
      by (rule origin_axis [OF _ i q]) simp
  qed
  with assms hash_impl_origin [OF _ assms, where 'a = 64]
    hash_impl_origin [OF _ assms, where 'a = 32]
  show ?thesis
    by (simp add: array_call_def tuple_call_def spatial_hash_array_def spatial_hash_tuple_def)
qed

theorem origin_cell_hashes_to_zero_witness:
  "in_origin_cell (axis_quotient (Double (Finite 0.25)) (Finite 0.5)) \<and>
   in_origin_cell (axis_quotient (Long_double X87_Extended (Finite 2.5)) (Finite 3)) \<and>
   in_origin_cell (axis_quotient (Long_double Binary128 (Finite 0)) (Finite 7)) \<and>
   array_call (spatial_hash_array [Finite 0.5, Finite 3, Finite 7])
     [Double (Finite 0.25), Long_double X87_Extended (Finite 2.5), Long_double Binary128 (Finite 0)] =
     Inr (0 :: 64 word) \<and>
   tuple_call (spatial_hash_tuple [Finite 0.5, Finite 3, Finite 7])
     [Double (Finite 0.25), Long_double X87_Extended (Finite 2.5), Long_double Binary128 (Finite 0)] =
     Inr (0 :: 32 word)"
proof -
  have axis0: "in_origin_cell (axis_quotient (Double (Finite 0.25)) (Finite 0.5))"
    by code_simp
  have axis1: "in_origin_cell (axis_quotient (Long_double X87_Extended (Finite 2.5)) (Finite 3))"
    by code_simp
  have axis2: "in_origin_cell (axis_quotient (Long_double Binary128 (Finite 0)) (Finite 7))"
    by code_simp
  have "\<forall>i<length [Finite 0.5, Finite 3, Finite 7].
      in_origin_cell (axis_quotient
        ([Double (Finite 0.25), Long_double X87_Extended (Finite 2.5),
          Long_double Binary128 (Finite 0)] ! i)
        ([Finite 0.5, Finite 3, Finite 7] ! i))"
    using axis0 axis1 axis2 by (simp add: less_Suc_eq del: axis_quotient.simps)
  from origin_cell_hashes_to_zero [OF _ _ this] axis0 axis1 axis2 show ?thesis
    by (simp del: axis_quotient.simps)
qed

text \<open>
  Claim C10 does not hold for the quotient \<open>v[i] / r[i]\<close> in the type of the division. An
  element of type \<^verbatim>\<open>long double\<close> is divided in \<^verbatim>\<open>long double\<close>: at the resolution 1, the
  quotient of \<open>1 - 2^-64\<close> (64-bit significand) and that of \<open>1 - 2^-113\<close> (113-bit
  significand) lie in \<open>[0, 1)\<close>, but they are converted to the double 1 when they are passed
  to the single-axis primitive, and the hash is the multiplier, not 0.
\<close>

theorem origin_cell_hashes_to_zero_counterexample:
  "in_origin_cell (fdiv_in X87_Extended (Finite (1 - 1 / 2 ^ 64)) (Finite 1)) \<and>
   array_call (spatial_hash_array [Finite 1]) [Long_double X87_Extended (Finite (1 - 1 / 2 ^ 64))] =
     Inr (11400714819323198485 :: 64 word) \<and>
   array_call (spatial_hash_array [Finite 1]) [Long_double X87_Extended (Finite (1 - 1 / 2 ^ 64))] \<noteq>
     Inr (0 :: 64 word) \<and>
   in_origin_cell (fdiv_in Binary128 (Finite (1 - 1 / 2 ^ 113)) (Finite 1)) \<and>
   tuple_call (spatial_hash_tuple [Finite 1]) [Long_double Binary128 (Finite (1 - 1 / 2 ^ 113))] =
     Inr (2654435769 :: 32 word) \<and>
   tuple_call (spatial_hash_tuple [Finite 1]) [Long_double Binary128 (Finite (1 - 1 / 2 ^ 113))] \<noteq>
     Inr (0 :: 32 word)"
  by code_simp

section \<open>The hashers as functions of their configuration\<close>

text \<open>
  Claim C4 (determinism), where a hash word is returned. The call operators are \<^verbatim>\<open>const\<close>
  members that read nothing but the resolution of the hasher and the state. For a resolution
  \<open>r\<close> of a dimensionality \<open>D \<ge> 1\<close> and a state \<open>v\<close> of \<open>D\<close> elements such that, on every
  axis, the floor of the quotient that the single-axis primitive receives is finite and a
  value of the signed integer type of the word's width, every hasher whose resolution is \<open>r\<close>
  returns for \<open>v\<close> the hash word of the cell of \<open>v\<close>, which is a function of \<open>r\<close> and \<open>v\<close>
  alone: every call returns this word, and two array hashers, two tuple hashers and two pose
  hashers of equal resolutions return equal words, on 64-bit and on 32-bit words.
\<close>

theorem determinism:
  fixes v :: "scalar list" and r :: "double list"
  assumes "array_resolution h1 = r" and "array_resolution h2 = r"
    and "tuple_resolution t1 = r" and "tuple_resolution t2 = r"
    and "1 \<le> length r" and "length v = length r"
  shows "((\<forall>i<length r. fits_signed 64 (std_floor (axis_quotient (v ! i) (r ! i)))) \<longrightarrow>
            array_call h1 v = Inr (cell_word (11400714819323198485 :: 64 word) (coordinates v r)) \<and>
            array_call h2 v = Inr (cell_word (11400714819323198485 :: 64 word) (coordinates v r)) \<and>
            tuple_call t1 v = Inr (cell_word (11400714819323198485 :: 64 word) (coordinates v r)) \<and>
            tuple_call t2 v = Inr (cell_word (11400714819323198485 :: 64 word) (coordinates v r)) \<and>
            (tuple_resolution (underlying_hasher p1) = r \<and>
             tuple_resolution (underlying_hasher p2) = r \<and>
             v = [Double (translation_x s), Double (translation_y s), Double (so2_log s)] \<longrightarrow>
               SE2d_call p1 s =
                 Inr (cell_word (11400714819323198485 :: 64 word) (coordinates v r)) \<and>
               SE2d_call p2 s =
                 Inr (cell_word (11400714819323198485 :: 64 word) (coordinates v r)))) \<and>
         ((\<forall>i<length r. fits_signed 32 (std_floor (axis_quotient (v ! i) (r ! i)))) \<longrightarrow>
            array_call h1 v = Inr (cell_word (2654435769 :: 32 word) (coordinates v r)) \<and>
            array_call h2 v = Inr (cell_word (2654435769 :: 32 word) (coordinates v r)) \<and>
            tuple_call t1 v = Inr (cell_word (2654435769 :: 32 word) (coordinates v r)) \<and>
            tuple_call t2 v = Inr (cell_word (2654435769 :: 32 word) (coordinates v r)) \<and>
            (tuple_resolution (underlying_hasher p1) = r \<and>
             tuple_resolution (underlying_hasher p2) = r \<and>
             v = [Double (translation_x s), Double (translation_y s), Double (so2_log s)] \<longrightarrow>
               SE2d_call p1 s =
                 Inr (cell_word (2654435769 :: 32 word) (coordinates v r)) \<and>
               SE2d_call p2 s =
                 Inr (cell_word (2654435769 :: 32 word) (coordinates v r))))"
proof -
  have hashers: "h1 = \<lparr>array_resolution = r\<rparr>" "h2 = \<lparr>array_resolution = r\<rparr>"
    "t1 = \<lparr>tuple_resolution = r\<rparr>" "t2 = \<lparr>tuple_resolution = r\<rparr>"
    using assms(1-4) by simp_all
  have wide: "array_call \<lparr>array_resolution = r\<rparr> v =
        Inr (cell_word (11400714819323198485 :: 64 word) (coordinates v r))"
      "tuple_call \<lparr>tuple_resolution = r\<rparr> v =
        Inr (cell_word (11400714819323198485 :: 64 word) (coordinates v r))"
    if "\<forall>i<length r. fits_signed 64 (std_floor (axis_quotient (v ! i) (r ! i)))"
    using call_defined [where 'a = 64, OF kFib_64 assms(5,6)] that by simp_all
  have narrow: "array_call \<lparr>array_resolution = r\<rparr> v =
        Inr (cell_word (2654435769 :: 32 word) (coordinates v r))"
      "tuple_call \<lparr>tuple_resolution = r\<rparr> v =
        Inr (cell_word (2654435769 :: 32 word) (coordinates v r))"
    if "\<forall>i<length r. fits_signed 32 (std_floor (axis_quotient (v ! i) (r ! i)))"
    using call_defined [where 'a = 32, OF kFib_32 assms(5,6)] that by simp_all
  show ?thesis
    unfolding hashers
    using wide narrow SE2d_call_tuple [where 'a = 64, of _ r v s]
      SE2d_call_tuple [where 'a = 32, of _ r v s]
    by (intro conjI impI) simp_all
qed

theorem determinism_witness:
  "fits_signed 64 (std_floor (axis_quotient (Double (Finite 3)) (Finite 0.5))) \<and>
   fits_signed 64 (std_floor (axis_quotient (Long_double X87_Extended (Finite 4)) (Finite 2))) \<and>
   array_call \<lparr>array_resolution = [Finite 0.5, Finite 2]\<rparr>
     [Double (Finite 3), Long_double X87_Extended (Finite 4)] =
     Inr (cell_word (11400714819323198485 :: 64 word) [6, 2]) \<and>
   array_call (spatial_hash_array [Finite 0.5, Finite (4 / 2)])
     [Double (Finite 3), Long_double X87_Extended (Finite 4)] =
     Inr (cell_word (11400714819323198485 :: 64 word) [6, 2]) \<and>
   tuple_call \<lparr>tuple_resolution = [Finite 0.5, Finite 2]\<rparr>
     [Double (Finite 3), Long_double X87_Extended (Finite 4)] =
     Inr (cell_word (2654435769 :: 32 word) [6, 2]) \<and>
   tuple_call (spatial_hash_tuple [Finite 0.5, Finite 2])
     [Double (Finite 3), Long_double X87_Extended (Finite 4)] =
     Inr (cell_word (2654435769 :: 32 word) [6, 2])"
proof -
  have axis0: "std_floor (axis_quotient (Double (Finite 3)) (Finite 0.5)) = Finite 6"
    by code_simp
  have axis1: "std_floor (axis_quotient (Long_double X87_Extended (Finite 4)) (Finite 2)) = Finite 2"
    by code_simp
  have cells: "coordinates [Double (Finite 3), Long_double X87_Extended (Finite 4)]
      [Finite 0.5, Finite 2] = [6, 2]"
    using axis0 axis1 by (simp add: coordinates_def cell_def)
  have fits: "\<forall>i<length [Finite 0.5, Finite 2].
      fits_signed w (std_floor
        (axis_quotient ([Double (Finite 3), Long_double X87_Extended (Finite 4)] ! i)
          ([Finite 0.5, Finite 2] ! i)))" if "w = 64 \<or> w = 32" for w
    using axis0 axis1 that by (auto simp: less_Suc_eq)
  from determinism [of "\<lparr>array_resolution = [Finite 0.5, Finite 2]\<rparr>" "[Finite 0.5, Finite 2]"
      "spatial_hash_array [Finite 0.5, Finite (4 / 2)]"
      "\<lparr>tuple_resolution = [Finite 0.5, Finite 2]\<rparr>" "spatial_hash_tuple [Finite 0.5, Finite 2]"
      "[Double (Finite 3), Long_double X87_Extended (Finite 4)]"]
    fits [of 64] fits [of 32] cells axis0 axis1
  show ?thesis
    by (simp add: spatial_hash_array_def spatial_hash_tuple_def)
qed

text \<open>
  Claim C4 does not hold for every state. At the resolution 1 the states \<open>[2^63]\<close> and
  \<open>[NaN]\<close> have a floor that \<^verbatim>\<open>std::int64_t\<close> cannot hold: the conversion is undefined, and a
  call has no hash word that another call would have to return.
\<close>

theorem determinism_counterexample:
  "array_call (spatial_hash_array [round_double 1.0]) [Double (Finite (2 ^ 63))] =
     (Inl Undefined :: 64 word outcome) \<and>
   array_call (spatial_hash_array [round_double 1.0]) [Double NaN] =
     (Inl Undefined :: 64 word outcome) \<and>
   SE2d_call spatial_hash_SE2d_default
     \<lparr>translation_x = Finite (2 ^ 63), translation_y = Finite 0, so2_log = Finite 0\<rparr> =
     (Inl Undefined :: 64 word outcome)"
  by code_simp

section \<open>The two scenarios\<close>

lemma literals:
  "round_double 1.0 = Finite 1"
  "round_double 2.0 = Finite 2"
  "round_double 1.4 = Finite (3152519739159347 / 2 ^ 51)"
  "round_double 2.9 = Finite (6530219459687219 / 2 ^ 51)"
  "round_double 0.1 = Finite (3602879701896397 / 2 ^ 55)"
  "round_double 0.05 = Finite (3602879701896397 / 2 ^ 56)"
  "round_double 0.01 = Finite (5764607523034235 / 2 ^ 59)"
  "round_double 0.09 = Finite (3242591731706757 / 2 ^ 55)"
  "round_double 0.02 = Finite (5764607523034235 / 2 ^ 58)"
  "round_double 0.15 = Finite (5404319552844595 / 2 ^ 55)"
  by code_simp+

lemma scenario_a_floors:
  "std_floor (fdiv (round_double 1.0) (round_double 1.0)) = Finite 1"
  "std_floor (fdiv (round_double 2.0) (round_double 1.0)) = Finite 2"
  "std_floor (fdiv (round_double 1.4) (round_double 1.0)) = Finite 1"
  "std_floor (fdiv (round_double 2.9) (round_double 1.0)) = Finite 2"
  unfolding literals by code_simp+

lemma scenario_b_floors_first:
  "std_floor (fdiv (round_double 0.05) (round_double 0.1)) = Finite 0"
  "std_floor (fdiv (round_double 0.01) (round_double 0.1)) = Finite 0"
  unfolding literals by code_simp+

lemma scenario_b_floors_second:
  "std_floor (fdiv (round_double 0.09) (round_double 0.1)) = Finite 0"
  "std_floor (fdiv (round_double 0.02) (round_double 0.1)) = Finite 0"
  unfolding literals by code_simp+

lemma scenario_b_floors_third:
  "std_floor (fdiv (round_double 0.15) (round_double 0.1)) = Finite 1"
  unfolding literals by code_simp

lemma scenario_a_cells:
  "cell [Double (round_double 1.0), Double (round_double 2.0)] [round_double 1.0, round_double 1.0] =
     map (\<lambda>z. Finite (of_int z)) [1, 2]"
  "cell [Double (round_double 1.4), Double (round_double 2.9)] [round_double 1.0, round_double 1.0] =
     map (\<lambda>z. Finite (of_int z)) [1, 2]"
  "cell [Double (round_double 2.0), Double (round_double 2.0)] [round_double 1.0, round_double 1.0] =
     map (\<lambda>z. Finite (of_int z)) [2, 2]"
  using scenario_a_floors by (simp_all add: cell_def)

lemma scenario_b_cells:
  "cell [Double (round_double 0.05), Double (round_double 0.05), Double (round_double 0.01)]
     [round_double 0.1, round_double 0.1, round_double 0.1] =
     map (\<lambda>z. Finite (of_int z)) [0, 0, 0]"
  "cell [Double (round_double 0.09), Double (round_double 0.02), Double (round_double 0.05)]
     [round_double 0.1, round_double 0.1, round_double 0.1] =
     map (\<lambda>z. Finite (of_int z)) [0, 0, 0]"
  "cell [Double (round_double 0.15), Double (round_double 0.05), Double (round_double 0.01)]
     [round_double 0.1, round_double 0.1, round_double 0.1] =
     map (\<lambda>z. Finite (of_int z)) [1, 0, 0]"
  using scenario_b_floors_first scenario_b_floors_second scenario_b_floors_third
  by (simp_all add: cell_def)

lemma cell_words:
  "cell_word 11400714819323198485 [1, 2] = (6963551918331563879 :: 64 word)"
  "cell_word 11400714819323198485 [2, 2] = (14049554463391877976 :: 64 word)"
  "cell_word 2654435769 [1, 2] = (1833256407 :: 32 word)"
  "cell_word 2654435769 [2, 2] = (3474771740 :: 32 word)"
  "cell_word 11400714819323198485 [0, 0, 0] = (0 :: 64 word)"
  "cell_word 11400714819323198485 [1, 0, 0] = (11400714819323198485 :: 64 word)"
  "cell_word 2654435769 [0, 0, 0] = (0 :: 32 word)"
  "cell_word 2654435769 [1, 0, 0] = (2654435769 :: 32 word)"
  by code_simp+

lemma scenario_a_words:
  "array_call (spatial_hash_array [round_double 1.0, round_double 1.0])
     [Double (round_double 1.0), Double (round_double 2.0)] = Inr (6963551918331563879 :: 64 word)"
  "array_call (spatial_hash_array [round_double 1.0, round_double 1.0])
     [Double (round_double 1.4), Double (round_double 2.9)] = Inr (6963551918331563879 :: 64 word)"
  "array_call (spatial_hash_array [round_double 1.0, round_double 1.0])
     [Double (round_double 2.0), Double (round_double 2.0)] = Inr (14049554463391877976 :: 64 word)"
  "array_call (spatial_hash_array [round_double 1.0, round_double 1.0])
     [Double (round_double 1.0), Double (round_double 2.0)] = Inr (1833256407 :: 32 word)"
  "array_call (spatial_hash_array [round_double 1.0, round_double 1.0])
     [Double (round_double 1.4), Double (round_double 2.9)] = Inr (1833256407 :: 32 word)"
  "array_call (spatial_hash_array [round_double 1.0, round_double 1.0])
     [Double (round_double 2.0), Double (round_double 2.0)] = Inr (3474771740 :: 32 word)"
proof -
  show "array_call (spatial_hash_array [round_double 1.0, round_double 1.0])
      [Double (round_double 1.0), Double (round_double 2.0)] = Inr (6963551918331563879 :: 64 word)"
    by (rule array_call_cell [where 'a = 64, OF kFib_64 _ scenario_a_cells(1), unfolded cell_words])
      simp_all
  show "array_call (spatial_hash_array [round_double 1.0, round_double 1.0])
      [Double (round_double 1.4), Double (round_double 2.9)] = Inr (6963551918331563879 :: 64 word)"
    by (rule array_call_cell [where 'a = 64, OF kFib_64 _ scenario_a_cells(2), unfolded cell_words])
      simp_all
  show "array_call (spatial_hash_array [round_double 1.0, round_double 1.0])
      [Double (round_double 2.0), Double (round_double 2.0)] = Inr (14049554463391877976 :: 64 word)"
    by (rule array_call_cell [where 'a = 64, OF kFib_64 _ scenario_a_cells(3), unfolded cell_words])
      simp_all
  show "array_call (spatial_hash_array [round_double 1.0, round_double 1.0])
      [Double (round_double 1.0), Double (round_double 2.0)] = Inr (1833256407 :: 32 word)"
    by (rule array_call_cell [where 'a = 32, OF kFib_32 _ scenario_a_cells(1), unfolded cell_words])
      simp_all
  show "array_call (spatial_hash_array [round_double 1.0, round_double 1.0])
      [Double (round_double 1.4), Double (round_double 2.9)] = Inr (1833256407 :: 32 word)"
    by (rule array_call_cell [where 'a = 32, OF kFib_32 _ scenario_a_cells(2), unfolded cell_words])
      simp_all
  show "array_call (spatial_hash_array [round_double 1.0, round_double 1.0])
      [Double (round_double 2.0), Double (round_double 2.0)] = Inr (3474771740 :: 32 word)"
    by (rule array_call_cell [where 'a = 32, OF kFib_32 _ scenario_a_cells(3), unfolded cell_words])
      simp_all
qed

lemma scenario_b_pose_cells:
  "cell [Double (translation_x \<lparr>translation_x = round_double 0.05, translation_y = round_double 0.05,
        so2_log = round_double 0.01\<rparr>),
      Double (translation_y \<lparr>translation_x = round_double 0.05, translation_y = round_double 0.05,
        so2_log = round_double 0.01\<rparr>),
      Double (so2_log \<lparr>translation_x = round_double 0.05, translation_y = round_double 0.05,
        so2_log = round_double 0.01\<rparr>)]
     [round_double 0.1, round_double 0.1, round_double 0.1] =
     map (\<lambda>z. Finite (of_int z)) [0, 0, 0]"
  "cell [Double (translation_x \<lparr>translation_x = round_double 0.09, translation_y = round_double 0.02,
        so2_log = round_double 0.05\<rparr>),
      Double (translation_y \<lparr>translation_x = round_double 0.09, translation_y = round_double 0.02,
        so2_log = round_double 0.05\<rparr>),
      Double (so2_log \<lparr>translation_x = round_double 0.09, translation_y = round_double 0.02,
        so2_log = round_double 0.05\<rparr>)]
     [round_double 0.1, round_double 0.1, round_double 0.1] =
     map (\<lambda>z. Finite (of_int z)) [0, 0, 0]"
  "cell [Double (translation_x \<lparr>translation_x = round_double 0.15, translation_y = round_double 0.05,
        so2_log = round_double 0.01\<rparr>),
      Double (translation_y \<lparr>translation_x = round_double 0.15, translation_y = round_double 0.05,
        so2_log = round_double 0.01\<rparr>),
      Double (so2_log \<lparr>translation_x = round_double 0.15, translation_y = round_double 0.05,
        so2_log = round_double 0.01\<rparr>)]
     [round_double 0.1, round_double 0.1, round_double 0.1] =
     map (\<lambda>z. Finite (of_int z)) [1, 0, 0]"
  using scenario_b_cells by simp_all

lemma scenario_b_words:
  "SE2d_call (spatial_hash_SE2d_linear_angular (round_double 0.1) (round_double 0.1))
     \<lparr>translation_x = round_double 0.05, translation_y = round_double 0.05,
        so2_log = round_double 0.01\<rparr> = Inr (0 :: 64 word)"
  "SE2d_call (spatial_hash_SE2d_linear_angular (round_double 0.1) (round_double 0.1))
     \<lparr>translation_x = round_double 0.09, translation_y = round_double 0.02,
        so2_log = round_double 0.05\<rparr> = Inr (0 :: 64 word)"
  "SE2d_call (spatial_hash_SE2d_linear_angular (round_double 0.1) (round_double 0.1))
     \<lparr>translation_x = round_double 0.15, translation_y = round_double 0.05,
        so2_log = round_double 0.01\<rparr> = Inr (11400714819323198485 :: 64 word)"
  "SE2d_call (spatial_hash_SE2d_linear_angular (round_double 0.1) (round_double 0.1))
     \<lparr>translation_x = round_double 0.05, translation_y = round_double 0.05,
        so2_log = round_double 0.01\<rparr> = Inr (0 :: 32 word)"
  "SE2d_call (spatial_hash_SE2d_linear_angular (round_double 0.1) (round_double 0.1))
     \<lparr>translation_x = round_double 0.09, translation_y = round_double 0.02,
        so2_log = round_double 0.05\<rparr> = Inr (0 :: 32 word)"
  "SE2d_call (spatial_hash_SE2d_linear_angular (round_double 0.1) (round_double 0.1))
     \<lparr>translation_x = round_double 0.15, translation_y = round_double 0.05,
        so2_log = round_double 0.01\<rparr> = Inr (2654435769 :: 32 word)"
proof -
  show "SE2d_call (spatial_hash_SE2d_linear_angular (round_double 0.1) (round_double 0.1))
      \<lparr>translation_x = round_double 0.05, translation_y = round_double 0.05,
        so2_log = round_double 0.01\<rparr> = Inr (0 :: 64 word)"
    unfolding spatial_hash_SE2d_linear_angular_def
    by (rule SE2d_call_cell [where 'a = 64, OF kFib_64 scenario_b_pose_cells(1), unfolded cell_words])
      simp_all
  show "SE2d_call (spatial_hash_SE2d_linear_angular (round_double 0.1) (round_double 0.1))
      \<lparr>translation_x = round_double 0.09, translation_y = round_double 0.02,
        so2_log = round_double 0.05\<rparr> = Inr (0 :: 64 word)"
    unfolding spatial_hash_SE2d_linear_angular_def
    by (rule SE2d_call_cell [where 'a = 64, OF kFib_64 scenario_b_pose_cells(2), unfolded cell_words])
      simp_all
  show "SE2d_call (spatial_hash_SE2d_linear_angular (round_double 0.1) (round_double 0.1))
      \<lparr>translation_x = round_double 0.15, translation_y = round_double 0.05,
        so2_log = round_double 0.01\<rparr> = Inr (11400714819323198485 :: 64 word)"
    unfolding spatial_hash_SE2d_linear_angular_def
    by (rule SE2d_call_cell [where 'a = 64, OF kFib_64 scenario_b_pose_cells(3), unfolded cell_words])
      simp_all
  show "SE2d_call (spatial_hash_SE2d_linear_angular (round_double 0.1) (round_double 0.1))
      \<lparr>translation_x = round_double 0.05, translation_y = round_double 0.05,
        so2_log = round_double 0.01\<rparr> = Inr (0 :: 32 word)"
    unfolding spatial_hash_SE2d_linear_angular_def
    by (rule SE2d_call_cell [where 'a = 32, OF kFib_32 scenario_b_pose_cells(1), unfolded cell_words])
      simp_all
  show "SE2d_call (spatial_hash_SE2d_linear_angular (round_double 0.1) (round_double 0.1))
      \<lparr>translation_x = round_double 0.09, translation_y = round_double 0.02,
        so2_log = round_double 0.05\<rparr> = Inr (0 :: 32 word)"
    unfolding spatial_hash_SE2d_linear_angular_def
    by (rule SE2d_call_cell [where 'a = 32, OF kFib_32 scenario_b_pose_cells(2), unfolded cell_words])
      simp_all
  show "SE2d_call (spatial_hash_SE2d_linear_angular (round_double 0.1) (round_double 0.1))
      \<lparr>translation_x = round_double 0.15, translation_y = round_double 0.05,
        so2_log = round_double 0.01\<rparr> = Inr (2654435769 :: 32 word)"
    unfolding spatial_hash_SE2d_linear_angular_def
    by (rule SE2d_call_cell [where 'a = 32, OF kFib_32 scenario_b_pose_cells(3), unfolded cell_words])
      simp_all
qed

text \<open>
  Claim C5 (scenario A, fixed sequence). The array hasher of the resolution \<open>(1.0, 1.0)\<close>
  gives \<open>[1.0, 2.0]\<close> and \<open>[1.4, 2.9]\<close> the same word, and \<open>[2.0, 2.0]\<close> another one, on
  64-bit and on 32-bit words.
\<close>

theorem scenario_fixed_sequence:
  "(array_call (spatial_hash_array [round_double 1.0, round_double 1.0])
      [Double (round_double 1.0), Double (round_double 2.0)] :: 64 word outcome) =
   array_call (spatial_hash_array [round_double 1.0, round_double 1.0])
      [Double (round_double 1.4), Double (round_double 2.9)] \<and>
   (array_call (spatial_hash_array [round_double 1.0, round_double 1.0])
      [Double (round_double 1.0), Double (round_double 2.0)] :: 64 word outcome) \<noteq>
   array_call (spatial_hash_array [round_double 1.0, round_double 1.0])
      [Double (round_double 2.0), Double (round_double 2.0)] \<and>
   (array_call (spatial_hash_array [round_double 1.0, round_double 1.0])
      [Double (round_double 1.0), Double (round_double 2.0)] :: 32 word outcome) =
   array_call (spatial_hash_array [round_double 1.0, round_double 1.0])
      [Double (round_double 1.4), Double (round_double 2.9)] \<and>
   (array_call (spatial_hash_array [round_double 1.0, round_double 1.0])
      [Double (round_double 1.0), Double (round_double 2.0)] :: 32 word outcome) \<noteq>
   array_call (spatial_hash_array [round_double 1.0, round_double 1.0])
      [Double (round_double 2.0), Double (round_double 2.0)] \<and>
   array_call (spatial_hash_array [round_double 1.0, round_double 1.0])
      [Double (round_double 1.0), Double (round_double 2.0)] = Inr (6963551918331563879 :: 64 word) \<and>
   array_call (spatial_hash_array [round_double 1.0, round_double 1.0])
      [Double (round_double 2.0), Double (round_double 2.0)] = Inr (14049554463391877976 :: 64 word)"
  unfolding scenario_a_words by simp

text \<open>
  Claim C6 (scenario B, pose). The pose hasher of the linear resolution 0.1 and the angular
  resolution 0.1 gives the pose at \<open>(0.05, 0.05)\<close> with the angle 0.01 and the pose at
  \<open>(0.09, 0.02)\<close> with the angle 0.05 the same word, and the pose at \<open>(0.15, 0.05)\<close> with
  the angle 0.01 another one, on 64-bit and on 32-bit words. The angle of a pose is the double
  that \<^verbatim>\<open>so2().log()\<close> returns for it.
\<close>

theorem scenario_pose:
  "(SE2d_call (spatial_hash_SE2d_linear_angular (round_double 0.1) (round_double 0.1))
      \<lparr>translation_x = round_double 0.05, translation_y = round_double 0.05,
        so2_log = round_double 0.01\<rparr> :: 64 word outcome) =
   SE2d_call (spatial_hash_SE2d_linear_angular (round_double 0.1) (round_double 0.1))
      \<lparr>translation_x = round_double 0.09, translation_y = round_double 0.02,
        so2_log = round_double 0.05\<rparr> \<and>
   (SE2d_call (spatial_hash_SE2d_linear_angular (round_double 0.1) (round_double 0.1))
      \<lparr>translation_x = round_double 0.05, translation_y = round_double 0.05,
        so2_log = round_double 0.01\<rparr> :: 64 word outcome) \<noteq>
   SE2d_call (spatial_hash_SE2d_linear_angular (round_double 0.1) (round_double 0.1))
      \<lparr>translation_x = round_double 0.15, translation_y = round_double 0.05,
        so2_log = round_double 0.01\<rparr> \<and>
   (SE2d_call (spatial_hash_SE2d_linear_angular (round_double 0.1) (round_double 0.1))
      \<lparr>translation_x = round_double 0.05, translation_y = round_double 0.05,
        so2_log = round_double 0.01\<rparr> :: 32 word outcome) =
   SE2d_call (spatial_hash_SE2d_linear_angular (round_double 0.1) (round_double 0.1))
      \<lparr>translation_x = round_double 0.09, translation_y = round_double 0.02,
        so2_log = round_double 0.05\<rparr> \<and>
   (SE2d_call (spatial_hash_SE2d_linear_angular (round_double 0.1) (round_double 0.1))
      \<lparr>translation_x = round_double 0.05, translation_y = round_double 0.05,
        so2_log = round_double 0.01\<rparr> :: 32 word outcome) \<noteq>
   SE2d_call (spatial_hash_SE2d_linear_angular (round_double 0.1) (round_double 0.1))
      \<lparr>translation_x = round_double 0.15, translation_y = round_double 0.05,
        so2_log = round_double 0.01\<rparr> \<and>
   SE2d_call (spatial_hash_SE2d_linear_angular (round_double 0.1) (round_double 0.1))
      \<lparr>translation_x = round_double 0.05, translation_y = round_double 0.05,
        so2_log = round_double 0.01\<rparr> = Inr (0 :: 64 word) \<and>
   SE2d_call (spatial_hash_SE2d_linear_angular (round_double 0.1) (round_double 0.1))
      \<lparr>translation_x = round_double 0.15, translation_y = round_double 0.05,
        so2_log = round_double 0.01\<rparr> = Inr (11400714819323198485 :: 64 word)"
  unfolding scenario_b_words by simp

text \<open>
  The scenario does not depend on the last bits of the angles: any three angles whose quotient
  by the resolution lies in \<open>[0, 1)\<close> give the same words.
\<close>

lemma in_origin_cell_floor: "in_origin_cell q \<Longrightarrow> std_floor q = Finite 0"
proof (cases q)
  case (Finite x)
  assume "in_origin_cell q"
  with Finite have "\<lfloor>x\<rfloor> = 0"
    by simp linarith
  with Finite show ?thesis
    by simp
qed simp_all

lemma scenario_pose_any_angle:
  fixes k :: "'a::len word"
  assumes "kFib = Inr k"
    and "in_origin_cell (fdiv theta1 (round_double 0.1))"
    and "in_origin_cell (fdiv theta2 (round_double 0.1))"
    and "in_origin_cell (fdiv theta3 (round_double 0.1))"
  shows "SE2d_call (spatial_hash_SE2d_linear_angular (round_double 0.1) (round_double 0.1))
           \<lparr>translation_x = round_double 0.05, translation_y = round_double 0.05,
              so2_log = theta1\<rparr> = Inr (cell_word k [0, 0, 0])"
    and "SE2d_call (spatial_hash_SE2d_linear_angular (round_double 0.1) (round_double 0.1))
           \<lparr>translation_x = round_double 0.09, translation_y = round_double 0.02,
              so2_log = theta2\<rparr> = Inr (cell_word k [0, 0, 0])"
    and "SE2d_call (spatial_hash_SE2d_linear_angular (round_double 0.1) (round_double 0.1))
           \<lparr>translation_x = round_double 0.15, translation_y = round_double 0.05,
              so2_log = theta3\<rparr> = Inr (cell_word k [1, 0, 0])"
proof -
  note floors = scenario_b_floors_first scenario_b_floors_second scenario_b_floors_third
    assms(2-4) [THEN in_origin_cell_floor]
  have width: "LENGTH('a) = 64 \<or> LENGTH('a) = 32"
    using assms(1) by (auto simp: kFib_def split: if_splits)
  show "SE2d_call (spatial_hash_SE2d_linear_angular (round_double 0.1) (round_double 0.1))
      \<lparr>translation_x = round_double 0.05, translation_y = round_double 0.05,
         so2_log = theta1\<rparr> = Inr (cell_word k [0, 0, 0])"
    unfolding spatial_hash_SE2d_linear_angular_def using floors
    by (intro SE2d_call_cell [OF assms(1)]) (simp_all add: cell_def)
  show "SE2d_call (spatial_hash_SE2d_linear_angular (round_double 0.1) (round_double 0.1))
      \<lparr>translation_x = round_double 0.09, translation_y = round_double 0.02,
         so2_log = theta2\<rparr> = Inr (cell_word k [0, 0, 0])"
    unfolding spatial_hash_SE2d_linear_angular_def using floors
    by (intro SE2d_call_cell [OF assms(1)]) (simp_all add: cell_def)
  show "SE2d_call (spatial_hash_SE2d_linear_angular (round_double 0.1) (round_double 0.1))
      \<lparr>translation_x = round_double 0.15, translation_y = round_double 0.05,
         so2_log = theta3\<rparr> = Inr (cell_word k [1, 0, 0])"
    unfolding spatial_hash_SE2d_linear_angular_def using floors width
    by (intro SE2d_call_cell [OF assms(1)]) (auto simp: cell_def)
qed


section \<open>The pose hasher\<close>




end
